theory Spec2Isabelle
  imports Complex_Main
begin

section \<open>Values held by the sevDesk client models\<close>

text \<open>
  An attribute of a client model is the marker \<open>UNSET\<close>, Python's \<open>None\<close>, or a value.
  The exceptions that the modelled code can meet are values of \<open>error\<close>; \<open>SystemExit\<close>
  carries the exit code and is not caught by \<^verbatim>\<open>except Exception\<close>.
\<close>

datatype 'a field = UNSET | PyNone | Val 'a

datatype error = ValueError | TypeError | EOFError | ApiException | SystemExit nat

type_synonym date = "nat \<times> nat \<times> nat"

text \<open>
  A Python \<^verbatim>\<open>str\<close> is a sequence of Unicode code points. \<open>ustr\<close> gives the code points of
  an ASCII literal.
\<close>

type_synonym codepoint = nat

type_synonym str = "codepoint list"

definition cp :: "char \<Rightarrow> codepoint" where
  "cp c = of_char c"

definition ustr :: "string \<Rightarrow> str" where
  "ustr s = map cp s"

text \<open>
  What \<^verbatim>\<open>str(tx.entry_date)\<close> and \<^verbatim>\<open>str(tx.amount)\<close> can look like: an ISO date with a time
  of day (seconds), or text that \<^verbatim>\<open>datetime.fromisoformat\<close> rejects; a decimal literal with
  mantissa \<open>m\<close> and \<open>s\<close> digits after the point (the number \<open>m / 10 ^ s\<close>, so that
  \<open>-42.00\<close> is \<open>Decimal (-4200) 2\<close> and \<open>-42.0\<close> is \<open>Decimal (-420) 1\<close>), or text that
  \<^verbatim>\<open>float\<close> rejects.
\<close>

datatype date_value = Datetime date nat | DateJunk

datatype amount_value = Decimal int nat | AmountJunk

record transaction =
  tx_id :: int
  entry_date :: "date_value field"
  amount :: "amount_value field"
  create :: int
  paymt_purpose :: "str field"

subsection \<open>Python floats\<close>

text \<open>
  A Python float is an IEEE 754 binary64 number; \<^verbatim>\<open>float(s)\<close> rounds the decimal it reads to
  the nearest one, ties to even. A finite float is kept as the rational it denotes.
\<close>

datatype float64 = Finite rat | PosInf | NegInf

text \<open>The number of binary digits of a positive integer.\<close>

function bitlen :: "int \<Rightarrow> int" where
  "bitlen n = (if n \<le> 0 then 0 else 1 + bitlen (n div 2))"
  by pat_completeness auto
termination
  by (relation "measure nat") auto

declare bitlen.simps [simp del]

text \<open>
  \<open>\<lfloor>log\<^sub>2 a\<rfloor>\<close> for a positive rational \<open>a = n / d\<close>: it is the difference of the bit lengths
  of \<open>n\<close> and \<open>d\<close>, or one less.
\<close>

definition ilog2 :: "rat \<Rightarrow> int" where
  "ilog2 a = (case quotient_of a of (n, d) \<Rightarrow>
     (let k = bitlen n - bitlen d
      in if power_int 2 k \<le> a then k else k - 1))"

definition round_half_even :: "rat \<Rightarrow> int" where
  "round_half_even q = (let f = \<lfloor>q\<rfloor>; r = q - of_int f
     in if r < 1 / 2 then f else if 1 / 2 < r then f + 1 else if even f then f else f + 1)"

definition to_float64 :: "rat \<Rightarrow> float64" where
  "to_float64 q = (if q = 0 then Finite 0 else
     (let a = \<bar>q\<bar>;
          e = max (ilog2 a) (- 1022);
          ulp = power_int 2 (e - 52);
          v = of_int (round_half_even (a / ulp)) * ulp
      in if 2 ^ 1024 \<le> v then (if q < 0 then NegInf else PosInf)
         else Finite (if q < 0 then - v else v)))"

definition decimal_value :: "int \<Rightarrow> nat \<Rightarrow> rat" where
  "decimal_value m s = of_int m / 10 ^ s"

text \<open>\<^verbatim>\<open>float(str(tx.amount))\<close>: neither \<open>str(UNSET)\<close> nor \<open>'None'\<close> is a number.\<close>

fun py_float :: "amount_value field \<Rightarrow> error + float64" where
  "py_float (Val (Decimal m s)) = Inr (to_float64 (decimal_value m s))"
| "py_float (Val AmountJunk) = Inl ValueError"
| "py_float PyNone = Inl ValueError"
| "py_float UNSET = Inl ValueError"

text \<open>\<^verbatim>\<open>datetime.datetime.fromisoformat(str(tx.entry_date))\<close>, then \<^verbatim>\<open>.date()\<close>.\<close>

fun fromisoformat :: "date_value field \<Rightarrow> error + date \<times> nat" where
  "fromisoformat (Val (Datetime d t)) = Inr (d, t)"
| "fromisoformat (Val DateJunk) = Inl ValueError"
| "fromisoformat PyNone = Inl ValueError"
| "fromisoformat UNSET = Inl ValueError"

definition date_of :: "date \<times> nat \<Rightarrow> date" where
  "date_of dt = fst dt"

subsection \<open>Regular expressions\<close>

text \<open>
  The fragment of Python's \<^verbatim>\<open>re\<close> that the card pattern uses. \<^verbatim>\<open>re.search\<close> is decided with
  derivatives: it answers whether some substring belongs to the language of the pattern,
  which is what a backtracking matcher answers for a pattern without back-references.

  In a \<^verbatim>\<open>str\<close> pattern \<^verbatim>\<open>\d\<close> matches every Unicode decimal digit, not only \<open>0\<close> to \<open>9\<close>. Which
  code points these are is a table of the Python runtime (the Unicode database it was built
  with), not of this program: the functions below take it as the parameter \<open>isdecimal\<close>.
  \<^verbatim>\<open>[A-Z]\<close> is the range of code points from \<open>A\<close> to \<open>Z\<close>.
\<close>

datatype cls = Exactly codepoint | Digit | Upper

fun cls_has :: "(codepoint \<Rightarrow> bool) \<Rightarrow> cls \<Rightarrow> codepoint \<Rightarrow> bool" where
  "cls_has isdecimal (Exactly c) x = (x = c)"
| "cls_has isdecimal Digit x = isdecimal x"
| "cls_has isdecimal Upper x = (cp CHR ''A'' \<le> x \<and> x \<le> cp CHR ''Z'')"

datatype regex = Empty | Eps | Atom cls | Alt regex regex | Seq regex regex | Star regex

definition Plus :: "regex \<Rightarrow> regex" where
  "Plus r = Seq r (Star r)"

fun Lit :: "str \<Rightarrow> regex" where
  "Lit [] = Eps"
| "Lit (c # cs) = Seq (Atom (Exactly c)) (Lit cs)"

fun nullable :: "regex \<Rightarrow> bool" where
  "nullable Empty = False"
| "nullable Eps = True"
| "nullable (Atom c) = False"
| "nullable (Alt r s) = (nullable r \<or> nullable s)"
| "nullable (Seq r s) = (nullable r \<and> nullable s)"
| "nullable (Star r) = True"

fun deriv :: "(codepoint \<Rightarrow> bool) \<Rightarrow> codepoint \<Rightarrow> regex \<Rightarrow> regex" where
  "deriv isdecimal x Empty = Empty"
| "deriv isdecimal x Eps = Empty"
| "deriv isdecimal x (Atom c) = (if cls_has isdecimal c x then Eps else Empty)"
| "deriv isdecimal x (Alt r s) = Alt (deriv isdecimal x r) (deriv isdecimal x s)"
| "deriv isdecimal x (Seq r s) =
     (if nullable r then Alt (Seq (deriv isdecimal x r) s) (deriv isdecimal x s)
      else Seq (deriv isdecimal x r) s)"
| "deriv isdecimal x (Star r) = Seq (deriv isdecimal x r) (Star r)"

text \<open>\<^verbatim>\<open>re.match\<close>: some prefix of the string matches.\<close>

fun re_match :: "(codepoint \<Rightarrow> bool) \<Rightarrow> regex \<Rightarrow> str \<Rightarrow> bool" where
  "re_match isdecimal r [] = nullable r"
| "re_match isdecimal r (x # xs) = (nullable r \<or> re_match isdecimal (deriv isdecimal x r) xs)"

text \<open>\<^verbatim>\<open>re.search\<close>: the pattern matches at some position of the string.\<close>

fun re_search :: "(codepoint \<Rightarrow> bool) \<Rightarrow> regex \<Rightarrow> str \<Rightarrow> bool" where
  "re_search isdecimal r [] = nullable r"
| "re_search isdecimal r (x # xs) =
     (re_match isdecimal r (x # xs) \<or> re_search isdecimal r xs)"

text \<open>\<^verbatim>\<open>pattern = r"Card transaction of \d+\.\d+ \([A-Z]+\)"\<close>\<close>

definition pattern :: regex where
  "pattern =
     Seq (Lit (ustr ''Card transaction of ''))
    (Seq (Plus (Atom Digit))
    (Seq (Atom (Exactly (cp CHR ''.'')))
    (Seq (Plus (Atom Digit))
    (Seq (Lit (ustr '' (''))
    (Seq (Plus (Atom Upper))
         (Atom (Exactly (cp CHR '')''))))))))"

text \<open>
  \<^verbatim>\<open>str(tx.paymt_purpose)\<close>. The text of the \<open>UNSET\<close> marker is its default \<open>repr\<close>; the
  address in it is left out.
\<close>

fun py_str :: "str field \<Rightarrow> str" where
  "py_str (Val s) = s"
| "py_str PyNone = ustr ''None''"
| "py_str UNSET = ustr ''<sevdesk.client.types.Unset object>''"

section \<open>Grouping: \<^verbatim>\<open>find_duplicate_transactions\<close>\<close>

type_synonym key = "date \<times> float64"

type_synonym groups = "(key \<times> transaction list) list"

text \<open>
  \<^verbatim>\<open>grouped_transactions[key].append(tx)\<close> on a \<^verbatim>\<open>defaultdict(list)\<close>: a dictionary keeps its
  keys in the order of their first insertion.
\<close>

fun dict_append :: "'k \<Rightarrow> 'v \<Rightarrow> ('k \<times> 'v list) list \<Rightarrow> ('k \<times> 'v list) list" where
  "dict_append k v [] = [(k, [v])]"
| "dict_append k v ((k', vs) # rest) =
     (if k' = k then (k', vs @ [v]) # rest else (k', vs) # dict_append k v rest)"

text \<open>
  The body of the \<^verbatim>\<open>try\<close>: the date is parsed first, then the amount; the first failure
  leaves the block.
\<close>

definition tx_key :: "transaction \<Rightarrow> error + key" where
  "tx_key tx =
     (case fromisoformat (entry_date tx) of
        Inl e \<Rightarrow> Inl e
      | Inr tx_datetime_obj \<Rightarrow>
          (case py_float (amount tx) of
             Inl e \<Rightarrow> Inl e
           | Inr tx_amount \<Rightarrow> Inr (date_of tx_datetime_obj, tx_amount)))"

text \<open>
  The loop over the transactions, on the pair \<open>(grouped_transactions, skipped_count)\<close>.
  The guard compares the attributes with the class \<^verbatim>\<open>Unset\<close> and with \<^verbatim>\<open>None\<close>; an attribute
  is never the class itself, so only \<^verbatim>\<open>None\<close> is caught there, and the marker \<open>UNSET\<close> goes
  on to the parsers. Every exception of the body is caught and counts as a skip.
\<close>

fun grouping_loop :: "transaction list \<Rightarrow> groups \<times> nat \<Rightarrow> groups \<times> nat" where
  "grouping_loop [] st = st"
| "grouping_loop (tx # txs) (grouped_transactions, skipped_count) =
     (if entry_date tx = PyNone \<or> amount tx = PyNone
      then grouping_loop txs (grouped_transactions, skipped_count + 1)
      else (case tx_key tx of
              Inr k \<Rightarrow> grouping_loop txs (dict_append k tx grouped_transactions, skipped_count)
            | Inl e \<Rightarrow> grouping_loop txs (grouped_transactions, skipped_count + 1)))"

text \<open>
  The result: the groups of more than one member, in dictionary order, and the number of
  skipped transactions, which the source prints when it is positive.
\<close>

definition find_duplicate_transactions :: "transaction list \<Rightarrow> groups \<times> nat" where
  "find_duplicate_transactions transactions =
     (case grouping_loop transactions ([], 0) of
        (grouped_transactions, skipped_count) \<Rightarrow>
          (filter (\<lambda>(k, tx_list). length tx_list > 1) grouped_transactions, skipped_count))"

section \<open>Canonical record and classification (the analysis loop of \<^verbatim>\<open>main\<close>)\<close>

text \<open>\<^verbatim>\<open>if earliest_tx is None or tx.create < earliest_tx.create: earliest_tx = tx\<close>\<close>

fun earliest_loop :: "transaction list \<Rightarrow> transaction option \<Rightarrow> transaction option" where
  "earliest_loop [] earliest_tx = earliest_tx"
| "earliest_loop (tx # txs) earliest_tx =
     earliest_loop txs
       (case earliest_tx of
          None \<Rightarrow> Some tx
        | Some e \<Rightarrow> if create tx < create e then Some tx else Some e)"

definition earliest :: "transaction list \<Rightarrow> transaction option" where
  "earliest tx_list = earliest_loop tx_list None"

text \<open>The two rules of the inner loop, in the order of the \<^verbatim>\<open>if\<close>/\<^verbatim>\<open>elif\<close>.\<close>

datatype verdict = CardRule | PurposeRule | NotDuplicate

definition card_rule :: "(codepoint \<Rightarrow> bool) \<Rightarrow> transaction \<Rightarrow> bool" where
  "card_rule isdecimal tx = re_search isdecimal pattern (py_str (paymt_purpose tx))"

definition classify ::
  "(codepoint \<Rightarrow> bool) \<Rightarrow> transaction \<Rightarrow> transaction \<Rightarrow> verdict" where
  "classify isdecimal tx earliest_tx =
     (if card_rule isdecimal tx then CardRule
      else if paymt_purpose tx = paymt_purpose earliest_tx then PurposeRule
      else NotDuplicate)"

text \<open>
  The state of the analysis: \<open>transactions_to_delete_ids\<close>, \<open>specific_duplicates_found\<close>
  and the printed report, one entry \<open>(original id, duplicate id)\<close> for each
  \<^verbatim>\<open>[ORIGINAL]\<close>/\<^verbatim>\<open>[DUPLICATE]\<close> block.
\<close>

record analysis =
  transactions_to_delete_ids :: "int list"
  specific_duplicates_found :: nat
  reported :: "(int \<times> int) list"

definition mark :: "transaction \<Rightarrow> transaction \<Rightarrow> analysis \<Rightarrow> analysis" where
  "mark earliest_tx tx a =
     a\<lparr>transactions_to_delete_ids := transactions_to_delete_ids a @ [tx_id tx],
       specific_duplicates_found := specific_duplicates_found a + 1,
       reported := reported a @ [(tx_id earliest_tx, tx_id tx)]\<rparr>"

fun classify_loop ::
  "(codepoint \<Rightarrow> bool) \<Rightarrow> transaction \<Rightarrow> transaction list \<Rightarrow> analysis \<Rightarrow> analysis" where
  "classify_loop isdecimal earliest_tx [] a = a"
| "classify_loop isdecimal earliest_tx (tx # txs) a =
     classify_loop isdecimal earliest_tx txs
       (if create tx > create earliest_tx
        then (case classify isdecimal tx earliest_tx of
                CardRule \<Rightarrow> mark earliest_tx tx a
              | PurposeRule \<Rightarrow> mark earliest_tx tx a
              | NotDuplicate \<Rightarrow> a)
        else a)"

text \<open>
  One round of the loop over \<open>duplicate_groups.items()\<close>. An empty list has no earliest
  member and its inner loop has nothing to visit.
\<close>

definition analyse_group ::
  "(codepoint \<Rightarrow> bool) \<Rightarrow> transaction list \<Rightarrow> analysis \<Rightarrow> analysis" where
  "analyse_group isdecimal tx_list a =
     (case earliest tx_list of
        None \<Rightarrow> a
      | Some earliest_tx \<Rightarrow> classify_loop isdecimal earliest_tx tx_list a)"

fun analyse_groups :: "(codepoint \<Rightarrow> bool) \<Rightarrow> groups \<Rightarrow> analysis \<Rightarrow> analysis" where
  "analyse_groups isdecimal [] a = a"
| "analyse_groups isdecimal ((k, tx_list) # rest) a =
     analyse_groups isdecimal rest (analyse_group isdecimal tx_list a)"

definition no_analysis :: analysis where
  "no_analysis =
     \<lparr>transactions_to_delete_ids = [], specific_duplicates_found = 0, reported = []\<rparr>"

text \<open>The deletion plan that \<^verbatim>\<open>main\<close> computes from the fetched transactions.\<close>

definition deletion_plan :: "(codepoint \<Rightarrow> bool) \<Rightarrow> transaction list \<Rightarrow> int list" where
  "deletion_plan isdecimal transactions =
     transactions_to_delete_ids
       (analyse_groups isdecimal (fst (find_duplicate_transactions transactions)) no_analysis)"

section \<open>The sevDesk service, the console and the process\<close>

text \<open>
  The generated client and the console are outside this program. A call of the client
  either raises an exception (a subclass of \<^verbatim>\<open>Exception\<close>) or returns; what it returns, and what
  it does to the remote ledger \<open>'w\<close>, is left to the parameter \<open>client\<close>. A response is
  \<^verbatim>\<open>None\<close> or an object whose attribute \<^verbatim>\<open>objects\<close> is a \<open>field\<close>.
\<close>

datatype 'a reply = Raises | Returns 'a

type_synonym 'a response = "'a field option"

datatype check_account_type = ONLINE | OFFLINE | REGISTER

record check_account =
  ca_id :: "int field"
  ca_name :: "str field"
  ca_type :: "check_account_type field"

text \<open>
  The \<^verbatim>\<open>CheckAccountModel\<close> that is sent to create an account: its name, its account number
  and its currency. The source sends \<^verbatim>\<open>currency.upper()\<close>; the model keeps the text before
  \<^verbatim>\<open>upper\<close>. The other attributes are constants.
\<close>

record check_account_model =
  new_name :: str
  new_currency_before_upper :: str
  new_account_number :: str

record 'w api =
  get_check_accounts :: "str option \<Rightarrow> 'w \<Rightarrow> check_account list response reply \<times> 'w"
  create_check_account :: "check_account_model \<Rightarrow> 'w \<Rightarrow> check_account response reply \<times> 'w"
  get_transactions :: "int \<Rightarrow> nat \<Rightarrow> 'w \<Rightarrow> transaction list response reply \<times> 'w"
  delete_check_account_transaction :: "int \<Rightarrow> 'w \<Rightarrow> unit reply \<times> 'w"

datatype api_call =
    GetCheckAccounts "str option"
  | CreateCheckAccount check_account_model
  | GetTransactions int nat
  | DeleteCheckAccountTransaction int

text \<open>
  A line typed at the prompt, by what \<^verbatim>\<open>.lower().strip()\<close> makes of it: it starts with \<open>y\<close>;
  it starts with \<open>n\<close> or is empty; anything else.
\<close>

datatype console_line = Yes | No | Unclear

text \<open>
  The lines of output that are modelled: the messages of \<^verbatim>\<open>die\<close>, the report of the analysis
  and the lines of the deletion phase. Progress lines, the per-record skip lines and the
  prompt itself are left out.
\<close>

datatype die_message =
    FailedToFetchAccounts
  | CannotProceedInDryRun
  | FailedToCreateAccount
  | ExceptionDuringCreation

datatype line =
    ERROR die_message
  | NoTransactionsFound
  | Skipped nat
  | FoundGroups nat
  | NoSameDateAmount
  | PotentialDuplicates
  | Marked int int
  | NoneMarked
  | DeletionConfirmation
  | DryRunNoDeletions nat
  | PleaseAnswer
  | UserConfirmed
  | Attempting int
  | SuccessfullyDeleted int
  | FailedToDelete int
  | DeletionSummary nat nat
  | UserDeclined

text \<open>
  The state of a run: the remote ledger, the log of the client calls made so far, the
  lines printed so far, and the lines still to be read from the console.
\<close>

record 'w process =
  remote :: 'w
  calls :: "api_call list"
  printed :: "line list"
  stdin :: "console_line list"

definition py_print :: "line \<Rightarrow> 'w process \<Rightarrow> 'w process" where
  "py_print l p = p\<lparr>printed := printed p @ [l]\<rparr>"

definition py_prints :: "line list \<Rightarrow> 'w process \<Rightarrow> 'w process" where
  "py_prints ls p = p\<lparr>printed := printed p @ ls\<rparr>"

text \<open>The client calls, logged.\<close>

definition call_get_check_accounts ::
  "'w api \<Rightarrow> str option \<Rightarrow> 'w process \<Rightarrow> check_account list response reply \<times> 'w process" where
  "call_get_check_accounts client name p =
     (case get_check_accounts client name (remote p) of
        (r, w) \<Rightarrow> (r, p\<lparr>remote := w, calls := calls p @ [GetCheckAccounts name]\<rparr>))"

definition call_create_check_account ::
  "'w api \<Rightarrow> check_account_model \<Rightarrow> 'w process \<Rightarrow> check_account response reply \<times> 'w process" where
  "call_create_check_account client json_body p =
     (case create_check_account client json_body (remote p) of
        (r, w) \<Rightarrow> (r, p\<lparr>remote := w, calls := calls p @ [CreateCheckAccount json_body]\<rparr>))"

definition call_get_transactions ::
  "'w api \<Rightarrow> int \<Rightarrow> nat \<Rightarrow> 'w process \<Rightarrow> transaction list response reply \<times> 'w process" where
  "call_get_transactions client account_id offset p =
     (case get_transactions client account_id offset (remote p) of
        (r, w) \<Rightarrow> (r, p\<lparr>remote := w, calls := calls p @ [GetTransactions account_id offset]\<rparr>))"

definition call_delete_check_account_transaction ::
  "'w api \<Rightarrow> int \<Rightarrow> 'w process \<Rightarrow> unit reply \<times> 'w process" where
  "call_delete_check_account_transaction client a_tx_id p =
     (case delete_check_account_transaction client a_tx_id (remote p) of
        (r, w) \<Rightarrow> (r, p\<lparr>remote := w, calls := calls p @ [DeleteCheckAccountTransaction a_tx_id]\<rparr>))"

text \<open>\<^verbatim>\<open>die\<close>: the message goes to the error stream and \<^verbatim>\<open>sys.exit(1)\<close> raises \<open>SystemExit 1\<close>.\<close>

definition die :: "die_message \<Rightarrow> 'w process \<Rightarrow> (error + 'a) \<times> 'w process" where
  "die msg p = (Inl (SystemExit 1), py_print (ERROR msg) p)"

subsection \<open>The class \<^verbatim>\<open>Accounts\<close>\<close>

record accounts =
  dry_run :: bool
  account_map :: "str \<times> str \<rightharpoonup> int"
  sevdesk_accounts_cache :: "int \<rightharpoonup> check_account"
  sevdesk_accounts_by_name :: "str \<rightharpoonup> check_account"

text \<open>
  The loop of \<^verbatim>\<open>_load_existing_accounts\<close>: an account is cached when its type is not
  \<open>REGISTER\<close> and its id and its name are truthy.
\<close>

fun cache_accounts :: "check_account list \<Rightarrow> accounts \<Rightarrow> accounts" where
  "cache_accounts [] a = a"
| "cache_accounts (acc # rest) a =
     cache_accounts rest
       (case (ca_id acc, ca_name acc) of
          (Val i, Val n) \<Rightarrow>
            if ca_type acc \<noteq> Val REGISTER \<and> i \<noteq> 0 \<and> n \<noteq> []
            then a\<lparr>sevdesk_accounts_cache := (sevdesk_accounts_cache a)(i \<mapsto> acc),
                   sevdesk_accounts_by_name := (sevdesk_accounts_by_name a)(n \<mapsto> acc)\<rparr>
            else a
        | _ \<Rightarrow> a)"

text \<open>
  \<^verbatim>\<open>_load_existing_accounts\<close>. The test \<^verbatim>\<open>res.objects is not Unset\<close> compares with the class and
  is always true, so a response whose \<open>objects\<close> is not a list makes the \<^verbatim>\<open>for\<close> raise
  \<open>TypeError\<close>; as every exception of the \<^verbatim>\<open>try\<close>, it ends in \<^verbatim>\<open>die\<close>.
\<close>

definition load_existing_accounts ::
  "'w api \<Rightarrow> accounts \<Rightarrow> 'w process \<Rightarrow> (error + accounts) \<times> 'w process" where
  "load_existing_accounts client a p =
     (case call_get_check_accounts client None p of
        (Raises, p') \<Rightarrow> die FailedToFetchAccounts p'
      | (Returns res, p') \<Rightarrow>
          (case res of
             None \<Rightarrow> (Inr a, p')
           | Some (Val objects) \<Rightarrow> (Inr (cache_accounts objects a), p')
           | Some _ \<Rightarrow> die FailedToFetchAccounts p'))"

text \<open>\<^verbatim>\<open>Accounts(client, dry_run)\<close>: empty dictionaries, then the load.\<close>

definition Accounts :: "'w api \<Rightarrow> bool \<Rightarrow> 'w process \<Rightarrow> (error + accounts) \<times> 'w process" where
  "Accounts client dry p =
     load_existing_accounts client
       \<lparr>dry_run = dry, account_map = Map.empty, sevdesk_accounts_cache = Map.empty,
        sevdesk_accounts_by_name = Map.empty\<rparr> p"

text \<open>\<^verbatim>\<open>f"Wise ({currency}, {identifier})"\<close>\<close>

definition generate_account_name :: "str \<Rightarrow> str \<Rightarrow> str" where
  "generate_account_name identifier currency =
     ustr ''Wise ('' @ currency @ ustr '', '' @ identifier @ ustr '')''"

text \<open>\<^verbatim>\<open>existing_account and existing_account.id\<close>\<close>

fun existing_id :: "check_account option \<Rightarrow> int option" where
  "existing_id None = None"
| "existing_id (Some acc) = (case ca_id acc of Val i \<Rightarrow> if i \<noteq> 0 then Some i else None | _ \<Rightarrow> None)"

text \<open>The loop over the objects of the second lookup: the first match returns.\<close>

fun find_account :: "str \<Rightarrow> check_account list \<Rightarrow> (int \<times> check_account) option" where
  "find_account target_name [] = None"
| "find_account target_name (obj # rest) =
     (case ca_id obj of
        Val i \<Rightarrow>
          if ca_name obj = Val target_name \<and> ca_type obj \<noteq> Val REGISTER \<and> i \<noteq> 0
          then Some (i, obj)
          else find_account target_name rest
      | _ \<Rightarrow> find_account target_name rest)"

definition remember :: "str \<times> str \<Rightarrow> str \<Rightarrow> int \<Rightarrow> check_account \<Rightarrow> accounts \<Rightarrow> accounts" where
  "remember account_key target_name i obj a =
     a\<lparr>account_map := (account_map a)(account_key \<mapsto> i),
       sevdesk_accounts_cache := (sevdesk_accounts_cache a)(i \<mapsto> obj),
       sevdesk_accounts_by_name := (sevdesk_accounts_by_name a)(target_name \<mapsto> obj)\<rparr>"

text \<open>
  The end of \<^verbatim>\<open>get_or_create_account_id\<close>, reached when no account was found: in a dry run
  \<^verbatim>\<open>die\<close>; otherwise the account is created. \<^verbatim>\<open>die\<close> inside the \<^verbatim>\<open>try\<close> raises \<open>SystemExit\<close>, which
  \<^verbatim>\<open>except Exception\<close> lets through.
\<close>

definition create_account ::
  "'w api \<Rightarrow> accounts \<Rightarrow> str \<Rightarrow> str \<Rightarrow> str \<Rightarrow> 'w process \<Rightarrow>
   (error + int \<times> accounts) \<times> 'w process" where
  "create_account client a identifier currency target_name p =
     (if dry_run a then die CannotProceedInDryRun p
      else
        (case call_create_check_account client
                \<lparr>new_name = target_name, new_currency_before_upper = currency,
                 new_account_number = identifier\<rparr> p of
           (Raises, p') \<Rightarrow> die ExceptionDuringCreation p'
         | (Returns res, p') \<Rightarrow>
             (case res of
                Some (Val created_account) \<Rightarrow>
                  (case ca_id created_account of
                     Val i \<Rightarrow>
                       if i \<noteq> 0
                       then (Inr (i, remember (identifier, currency) target_name i
                                       created_account a), p')
                       else die FailedToCreateAccount p'
                   | _ \<Rightarrow> die FailedToCreateAccount p')
              | _ \<Rightarrow> die FailedToCreateAccount p')))"

text \<open>
  \<^verbatim>\<open>get_or_create_account_id\<close>. The second lookup is outside any \<^verbatim>\<open>try\<close>: an exception of the
  client, or the \<open>TypeError\<close> of a response without a list, leaves the method.
\<close>

definition get_or_create_account_id ::
  "'w api \<Rightarrow> accounts \<Rightarrow> str \<Rightarrow> str \<Rightarrow> 'w process \<Rightarrow> (error + int \<times> accounts) \<times> 'w process" where
  "get_or_create_account_id client a identifier currency p =
     (case account_map a (identifier, currency) of
        Some i \<Rightarrow> (Inr (i, a), p)
      | None \<Rightarrow>
          (let target_name = generate_account_name identifier currency in
           case existing_id (sevdesk_accounts_by_name a target_name) of
             Some i \<Rightarrow>
               (Inr (i, a\<lparr>account_map := (account_map a)((identifier, currency) \<mapsto> i)\<rparr>), p)
           | None \<Rightarrow>
               (case call_get_check_accounts client (Some target_name) p of
                  (Raises, p') \<Rightarrow> (Inl ApiException, p')
                | (Returns res, p') \<Rightarrow>
                    (case res of
                       None \<Rightarrow> create_account client a identifier currency target_name p'
                     | Some (Val objects) \<Rightarrow>
                         (case find_account target_name objects of
                            Some (i, obj) \<Rightarrow>
                              (Inr (i, remember (identifier, currency) target_name i obj a), p')
                          | None \<Rightarrow> create_account client a identifier currency target_name p')
                     | Some _ \<Rightarrow> (Inl TypeError, p')))))"

subsection \<open>\<^verbatim>\<open>get_all_account_transactions\<close>\<close>

definition TRANSACTION_FETCH_LIMIT :: nat where
  "TRANSACTION_FETCH_LIMIT = 100"

text \<open>
  The \<^verbatim>\<open>while True\<close> loop on \<open>offset\<close> and \<open>all_transactions\<close>. It ends on an empty or missing
  page and on a page shorter than the limit; a service that keeps sending full pages keeps
  it running, and then the result is \<open>None\<close>. An exception of the client leaves the function.
\<close>

partial_function (option) fetch_loop ::
  "'w api \<Rightarrow> int \<Rightarrow> nat \<Rightarrow> transaction list \<Rightarrow> 'w process \<Rightarrow>
   ((error + transaction list) \<times> 'w process) option" where
  "fetch_loop client account_id offset all_transactions p =
     (case call_get_transactions client account_id offset p of
        (Raises, p') \<Rightarrow> Some (Inl ApiException, p')
      | (Returns response, p') \<Rightarrow>
          (case response of
             Some (Val objects) \<Rightarrow>
               if objects \<noteq> []
               then (if length objects < TRANSACTION_FETCH_LIMIT
                     then Some (Inr (all_transactions @ objects), p')
                     else fetch_loop client account_id (offset + length objects)
                            (all_transactions @ objects) p')
               else Some (Inr all_transactions, p')
           | _ \<Rightarrow> Some (Inr all_transactions, p')))"

definition get_all_account_transactions ::
  "'w api \<Rightarrow> int \<Rightarrow> 'w process \<Rightarrow> ((error + transaction list) \<times> 'w process) option" where
  "get_all_account_transactions client account_id p = fetch_loop client account_id 0 [] p"

subsection \<open>The deletion phase of \<^verbatim>\<open>main\<close>\<close>

text \<open>
  \<^verbatim>\<open>ask_for_confirmation\<close>: the loop reads lines until one is clear, and prints a reminder
  after each unclear one (their number is the third component). At the end of the input
  \<^verbatim>\<open>input\<close> raises \<open>EOFError\<close>.
\<close>

fun ask_loop :: "console_line list \<Rightarrow> (error + bool) \<times> console_line list \<times> nat" where
  "ask_loop [] = (Inl EOFError, [], 0)"
| "ask_loop (Yes # rest) = (Inr True, rest, 0)"
| "ask_loop (No # rest) = (Inr False, rest, 0)"
| "ask_loop (Unclear # rest) = (case ask_loop rest of (r, rest', n) \<Rightarrow> (r, rest', Suc n))"

definition ask_for_confirmation :: "'w process \<Rightarrow> (error + bool) \<times> 'w process" where
  "ask_for_confirmation p =
     (case ask_loop (stdin p) of
        (r, rest, n) \<Rightarrow> (r, p\<lparr>stdin := rest, printed := printed p @ replicate n PleaseAnswer\<rparr>))"

text \<open>
  The loop over \<open>transactions_to_delete_ids\<close>, on the pair \<open>(deleted_count, failed_count)\<close>.
  A deletion fails when the call raises: the exception is caught, counted, and the loop goes
  on. The source does not look at the response, so every call that returns counts as a
  deletion.
\<close>

fun delete_loop :: "'w api \<Rightarrow> int list \<Rightarrow> nat \<times> nat \<Rightarrow> 'w process \<Rightarrow> (nat \<times> nat) \<times> 'w process" where
  "delete_loop client [] counts p = (counts, p)"
| "delete_loop client (a_tx_id # rest) (deleted_count, failed_count) p =
     (case call_delete_check_account_transaction client a_tx_id (py_print (Attempting a_tx_id) p) of
        (Returns response, p') \<Rightarrow>
          delete_loop client rest (deleted_count + 1, failed_count)
            (py_print (SuccessfullyDeleted a_tx_id) p')
      | (Raises, p') \<Rightarrow>
          delete_loop client rest (deleted_count, failed_count + 1)
            (py_print (FailedToDelete a_tx_id) p'))"

datatype outcome = Returned | Exit nat | Uncaught error

text \<open>The exit status of the interpreter: an uncaught exception gives 1.\<close>

fun exit_code :: "outcome \<Rightarrow> nat" where
  "exit_code Returned = 0"
| "exit_code (Exit n) = n"
| "exit_code (Uncaught e) = 1"

text \<open>
  From \<^verbatim>\<open>if not transactions_to_delete_ids\<close> to the end of \<^verbatim>\<open>main\<close>: nothing to do; or the dry
  run, which reports and returns; or the question, and then the deletions with their
  summary, or nothing.
\<close>

definition deletion_phase ::
  "'w api \<Rightarrow> bool \<Rightarrow> int list \<Rightarrow> 'w process \<Rightarrow> outcome \<times> 'w process" where
  "deletion_phase client dry transactions_to_delete p =
     (if transactions_to_delete = [] then (Returned, py_print NoneMarked p)
      else if dry
      then (Returned,
            py_print (DryRunNoDeletions (length transactions_to_delete))
              (py_print DeletionConfirmation p))
      else
        (case ask_for_confirmation (py_print DeletionConfirmation p) of
           (Inl e, p') \<Rightarrow> (Uncaught e, p')
         | (Inr True, p') \<Rightarrow>
             (case delete_loop client transactions_to_delete (0, 0) (py_print UserConfirmed p') of
                ((deleted_count, failed_count), p'') \<Rightarrow>
                  (Returned, py_print (DeletionSummary deleted_count failed_count) p''))
         | (Inr False, p') \<Rightarrow> (Returned, py_print UserDeclined p')))"

subsection \<open>\<^verbatim>\<open>main\<close>\<close>

text \<open>
  \<^verbatim>\<open>main\<close> after the transactions are fetched: the grouping, the report of the analysis and
  the deletion phase.
\<close>

definition analyse_and_delete ::
  "'w api \<Rightarrow> (codepoint \<Rightarrow> bool) \<Rightarrow> bool \<Rightarrow> transaction list \<Rightarrow> 'w process \<Rightarrow>
   outcome \<times> 'w process" where
  "analyse_and_delete client isdecimal dry transactions p =
     (if transactions = [] then (Returned, py_print NoTransactionsFound p)
      else
        (case find_duplicate_transactions transactions of
           (duplicate_groups, skipped_count) \<Rightarrow>
             (let p1 = (if skipped_count > 0 then py_print (Skipped skipped_count) p else p);
                  p2 = py_print (FoundGroups (length duplicate_groups)) p1;
                  a = analyse_groups isdecimal duplicate_groups no_analysis;
                  p3 = (if duplicate_groups = [] then py_print NoSameDateAmount p2
                        else py_prints (PotentialDuplicates #
                               map (\<lambda>(original, duplicate). Marked original duplicate)
                                 (reported a)) p2)
              in deletion_phase client dry (transactions_to_delete_ids a) p3)))"

record args =
  args_account :: "str \<times> str"
  args_dry_run :: bool

text \<open>
  How an exception that leaves \<^verbatim>\<open>main\<close> ends the process: \<open>SystemExit\<close> with its code (also
  through \<^verbatim>\<open>except SystemExit as e: sys.exit(e.code)\<close>), any other exception uncaught.
\<close>

fun ended_by :: "error \<Rightarrow> outcome" where
  "ended_by (SystemExit n) = Exit n"
| "ended_by e = Uncaught e"

definition main ::
  "'w api \<Rightarrow> (codepoint \<Rightarrow> bool) \<Rightarrow> args \<Rightarrow> 'w process \<Rightarrow> (outcome \<times> 'w process) option" where
  "main client isdecimal args p =
     (case Accounts client (args_dry_run args) p of
        (Inl e, p1) \<Rightarrow> Some (ended_by e, p1)
      | (Inr accounts, p1) \<Rightarrow>
          (case get_or_create_account_id client accounts
                  (fst (args_account args)) (snd (args_account args)) p1 of
             (Inl e, p2) \<Rightarrow> Some (ended_by e, p2)
           | (Inr (sevdesk_account_id, accounts'), p2) \<Rightarrow>
               (case get_all_account_transactions client sevdesk_account_id p2 of
                  None \<Rightarrow> None
                | Some (Inl e, p3) \<Rightarrow> Some (ended_by e, p3)
                | Some (Inr transactions, p3) \<Rightarrow>
                    Some (analyse_and_delete client isdecimal (args_dry_run args)
                            transactions p3))))"

section \<open>Notions used to state the properties\<close>

subsection \<open>The language of a regular expression\<close>

inductive_set star :: "str set \<Rightarrow> str set" for A :: "str set" where
  star_nil: "[] \<in> star A"
| star_app: "u \<in> A \<Longrightarrow> v \<in> star A \<Longrightarrow> u @ v \<in> star A"

fun lang :: "(codepoint \<Rightarrow> bool) \<Rightarrow> regex \<Rightarrow> str set" where
  "lang isdecimal Empty = {}"
| "lang isdecimal Eps = {[]}"
| "lang isdecimal (Atom c) = {[x] | x. cls_has isdecimal c x}"
| "lang isdecimal (Alt r s) = lang isdecimal r \<union> lang isdecimal s"
| "lang isdecimal (Seq r s) = {u @ v | u v. u \<in> lang isdecimal r \<and> v \<in> lang isdecimal s}"
| "lang isdecimal (Star r) = star (lang isdecimal r)"

text \<open>
  A non-empty run of decimal digits, by the table of the runtime; a non-empty run of the
  capital letters \<open>A\<close> to \<open>Z\<close>.
\<close>

definition digits :: "(codepoint \<Rightarrow> bool) \<Rightarrow> str \<Rightarrow> bool" where
  "digits isdecimal w = (w \<noteq> [] \<and> (\<forall>x\<in>set w. isdecimal x))"

definition capitals :: "str \<Rightarrow> bool" where
  "capitals w = (w \<noteq> [] \<and> (\<forall>x\<in>set w. cp CHR ''A'' \<le> x \<and> x \<le> cp CHR ''Z''))"

text \<open>
  The card pattern as the specification words it: a card-transaction description, a decimal
  amount, and a currency code of three letters in parentheses.
\<close>

definition spec_pattern :: regex where
  "spec_pattern =
     Seq (Lit (ustr ''Card transaction of ''))
    (Seq (Plus (Atom Digit))
    (Seq (Atom (Exactly (cp CHR ''.'')))
    (Seq (Plus (Atom Digit))
    (Seq (Lit (ustr '' (''))
    (Seq (Atom Upper)
    (Seq (Atom Upper)
    (Seq (Atom Upper)
         (Atom (Exactly (cp CHR '')''))))))))))"

subsection \<open>Groups and plans\<close>

text \<open>The list stored under a key of an insertion-ordered dictionary, empty when absent.\<close>

definition group_of :: "('k \<times> 'v list) list \<Rightarrow> 'k \<Rightarrow> 'v list" where
  "group_of gs k = (case map_of gs k of None \<Rightarrow> [] | Some g \<Rightarrow> g)"

definition keyed :: "key \<Rightarrow> transaction \<Rightarrow> bool" where
  "keyed k tx = (tx_key tx = Inr k)"

text \<open>
  The invariant of the grouping loop after the transactions \<open>seen\<close>: keys are distinct, no
  list is empty, and the list under a key holds the transactions with that key, in order.
\<close>

definition grouped_inv :: "groups \<Rightarrow> transaction list \<Rightarrow> bool" where
  "grouped_inv gs seen =
     (distinct (map fst gs) \<and> list_all (\<lambda>p. snd p \<noteq> []) gs \<and>
      (\<forall>k. group_of gs k = filter (keyed k) seen))"

text \<open>A record whose entry date or amount is missing or cannot be parsed.\<close>

definition missing_or_unparsable :: "transaction \<Rightarrow> bool" where
  "missing_or_unparsable tx =
     (entry_date tx \<in> {UNSET, PyNone, Val DateJunk} \<or>
      amount tx \<in> {UNSET, PyNone, Val AmountJunk})"

text \<open>
  The members of a group that the analysis marks, given the canonical record \<open>c\<close>, and the
  ids that one group adds to the plan.
\<close>

definition flagged :: "(codepoint \<Rightarrow> bool) \<Rightarrow> transaction \<Rightarrow> transaction \<Rightarrow> bool" where
  "flagged isdecimal c m =
     (create c < create m \<and> (card_rule isdecimal m \<or> paymt_purpose m = paymt_purpose c))"

definition group_ids :: "(codepoint \<Rightarrow> bool) \<Rightarrow> transaction list \<Rightarrow> int list" where
  "group_ids isdecimal g =
     (case earliest g of None \<Rightarrow> [] | Some c \<Rightarrow> map tx_id (filter (flagged isdecimal c) g))"

subsection \<open>Sample data\<close>

text \<open>
  Sample transactions: \<open>sample\<close> has the entry date 2024-03-01 and the amount \<open>-42.00\<close>, with
  a chosen id, creation time and (ASCII) purpose; \<open>record_of\<close> has a chosen entry date and
  amount.
\<close>

definition sample :: "int \<Rightarrow> int \<Rightarrow> string \<Rightarrow> transaction" where
  "sample i c p =
     \<lparr>tx_id = i, entry_date = Val (Datetime (2024, 3, 1) 0), amount = Val (Decimal (- 4200) 2),
      create = c, paymt_purpose = Val (ustr p)\<rparr>"

definition record_of :: "int \<Rightarrow> date_value field \<Rightarrow> amount_value field \<Rightarrow> transaction" where
  "record_of i d a =
     \<lparr>tx_id = i, entry_date = d, amount = a, create = i, paymt_purpose = Val (ustr ''Rent'')\<rparr>"

definition sample_key :: key where
  "sample_key = ((2024, 3, 1), to_float64 (decimal_value (- 4200) 2))"


text \<open>
  A decimal-digit table for evaluating the samples: the digits \<open>0\<close> to \<open>9\<close> only. The
  purposes of the samples are ASCII text, and on ASCII text this table and the table of
  any Python runtime give the same answers (see \<open>card_rule_table\<close> below).
\<close>

definition ascii_isdecimal :: "codepoint \<Rightarrow> bool" where
  "ascii_isdecimal x = (cp CHR ''0'' \<le> x \<and> x \<le> cp CHR ''9'')"

text \<open>
  That the service lists no account with the name \<open>n\<close>: no response to a lookup, with or
  without a name filter and in whatever state of the ledger, holds an account of that name.
\<close>

definition no_account_named :: "'w api \<Rightarrow> str \<Rightarrow> bool" where
  "no_account_named client n =
     (\<forall>name w objects w'.
        get_check_accounts client name w = (Returns (Some (Val objects)), w') \<longrightarrow>
        (\<forall>acc\<in>set objects. ca_name acc \<noteq> Val n))"

text \<open>
  A stand-in for the service, for evaluating samples: the ledger is the list of the ids
  deleted so far, every lookup lists the accounts \<open>accs\<close>, there are no transactions, no
  account can be created, and deleting the transaction \<open>bad\<close> raises. A process that starts
  with the console input \<open>input\<close>.
\<close>

definition demo_client :: "check_account list \<Rightarrow> int \<Rightarrow> int list api" where
  "demo_client accs bad =
     \<lparr>get_check_accounts = (\<lambda>name w. (Returns (Some (Val accs)), w)),
      create_check_account = (\<lambda>json_body w. (Raises, w)),
      get_transactions = (\<lambda>account_id offset w. (Returns None, w)),
      delete_check_account_transaction =
        (\<lambda>i w. if i = bad then (Raises, w) else (Returns (), w @ [i]))\<rparr>"

definition demo_process :: "console_line list \<Rightarrow> int list process" where
  "demo_process input = \<lparr>remote = [], calls = [], printed = [], stdin = input\<rparr>"

definition demo_account :: check_account where
  "demo_account =
     \<lparr>ca_id = Val 7, ca_name = Val (ustr ''Wise (USD, BE00)''), ca_type = Val ONLINE\<rparr>"

definition demo_args :: args where
  "demo_args = \<lparr>args_account = (ustr ''BE00'', ustr ''EUR''), args_dry_run = True\<rparr>"

section \<open>The grouping loop\<close>

lemma map_of_dict_append:
  "map_of (dict_append k v gs) =
     (map_of gs)(k \<mapsto> (case map_of gs k of None \<Rightarrow> [v] | Some g \<Rightarrow> g @ [v]))"
  by (induction gs) (auto simp: fun_upd_twist)

lemma keys_dict_append: "fst ` set (dict_append k v gs) = insert k (fst ` set gs)"
  by (simp add: dom_map_of_conv_image_fst [symmetric] map_of_dict_append)

lemma distinct_dict_append:
  "distinct (map fst gs) \<Longrightarrow> distinct (map fst (dict_append k v gs))"
  by (induction gs) (auto simp: keys_dict_append)

lemma group_of_dict_append:
  "group_of (dict_append k v gs) k' = (if k' = k then group_of gs k @ [v] else group_of gs k')"
  by (auto simp: group_of_def map_of_dict_append split: option.splits)

lemma nonempty_dict_append:
  "list_all (\<lambda>p. snd p \<noteq> []) gs \<Longrightarrow> list_all (\<lambda>p. snd p \<noteq> []) (dict_append k v gs)"
  by (induction gs) auto

lemma tx_key_not_None:
  "tx_key tx = Inr k \<Longrightarrow> \<not> (entry_date tx = PyNone \<or> amount tx = PyNone)"
  by (auto simp: tx_key_def split: sum.splits)

lemma grouped_inv_start: "grouped_inv [] []"
  by (simp add: grouped_inv_def group_of_def)

lemma grouped_inv_step_skip:
  "grouped_inv gs seen \<Longrightarrow> tx_key tx = Inl e \<Longrightarrow> grouped_inv gs (seen @ [tx])"
  by (simp add: grouped_inv_def keyed_def)

lemma grouped_inv_step_add:
  "grouped_inv gs seen \<Longrightarrow> tx_key tx = Inr k \<Longrightarrow>
   grouped_inv (dict_append k tx gs) (seen @ [tx])"
  unfolding grouped_inv_def
  by (simp add: distinct_dict_append nonempty_dict_append group_of_dict_append keyed_def
      del: split_paired_All)

lemma grouping_loop_inv:
  "grouped_inv gs seen \<Longrightarrow> grouped_inv (fst (grouping_loop txs (gs, n))) (seen @ txs)"
proof (induction txs arbitrary: gs n seen)
  case Nil
  then show ?case by simp
next
  case (Cons tx txs)
  show ?case
  proof (cases "tx_key tx")
    case (Inl e)
    then have "grouped_inv gs (seen @ [tx])"
      using Cons.prems by (rule grouped_inv_step_skip [rotated])
    from Cons.IH [OF this] Inl show ?thesis by simp
  next
    case (Inr k)
    then have np: "\<not> (entry_date tx = PyNone \<or> amount tx = PyNone)"
      by (rule tx_key_not_None)
    have "grouped_inv (dict_append k tx gs) (seen @ [tx])"
      using Cons.prems Inr by (rule grouped_inv_step_add)
    from Cons.IH [OF this] Inr np show ?thesis by simp
  qed
qed

lemma grouped_inv_member:
  assumes "grouped_inv gs seen" and "(k, g) \<in> set gs"
  shows "g = filter (keyed k) seen" and "g \<noteq> []"
proof -
  have "map_of gs k = Some g"
    using assms by (simp add: grouped_inv_def)
  then have "group_of gs k = g" by (simp add: group_of_def)
  moreover have "\<forall>k. group_of gs k = filter (keyed k) seen"
    using assms(1) unfolding grouped_inv_def by blast
  ultimately show "g = filter (keyed k) seen" by metis
  show "g \<noteq> []" using assms unfolding grouped_inv_def list_all_iff by force
qed

lemma grouped_inv_present:
  assumes "grouped_inv gs seen" and "filter (keyed k) seen \<noteq> []"
  shows "(k, filter (keyed k) seen) \<in> set gs"
proof -
  have "\<forall>k. group_of gs k = filter (keyed k) seen"
    using assms(1) unfolding grouped_inv_def by blast
  then have "group_of gs k = filter (keyed k) seen" ..
  with assms(2) obtain g where "map_of gs k = Some g" "g = filter (keyed k) seen"
    by (auto simp: group_of_def split: option.splits)
  then show ?thesis by (auto dest: map_of_SomeD)
qed

text \<open>
  The groups that are returned: under each key that at least two transactions have, those
  transactions in input order.
\<close>

lemma find_duplicate_transactions_groups:
  "(k, g) \<in> set (fst (find_duplicate_transactions txs)) \<longleftrightarrow>
     g = filter (keyed k) txs \<and> 1 < length g"
proof -
  obtain gs n where gl: "grouping_loop txs ([], 0) = (gs, n)"
    by (cases "grouping_loop txs ([], 0)")
  have inv: "grouped_inv gs txs"
    using grouping_loop_inv [OF grouped_inv_start, of txs 0] gl by simp
  have "(k, g) \<in> set gs \<longleftrightarrow> g = filter (keyed k) txs \<and> g \<noteq> []"
    using grouped_inv_member [OF inv] grouped_inv_present [OF inv] by blast
  then show ?thesis
    by (auto simp: find_duplicate_transactions_def gl)
qed

section \<open>Canonical selection\<close>

lemma earliest_loop_split:
  "pre = yp @ e # zp \<Longrightarrow> (\<forall>m\<in>set yp. create e < create m) \<Longrightarrow>
   (\<forall>m\<in>set zp. create e \<le> create m) \<Longrightarrow>
   \<exists>c ys zs. earliest_loop xs (Some e) = Some c \<and> pre @ xs = ys @ c # zs \<and>
     (\<forall>m\<in>set ys. create c < create m) \<and> (\<forall>m\<in>set zs. create c \<le> create m)"
proof (induction xs arbitrary: pre e yp zp)
  case Nil
  then show ?case by auto
next
  case (Cons x xs)
  show ?case
  proof (cases "create x < create e")
    case True
    have "\<forall>m\<in>set pre. create x < create m"
      using Cons.prems True by fastforce
    then have "\<exists>c ys zs. earliest_loop xs (Some x) = Some c \<and>
       (pre @ [x]) @ xs = ys @ c # zs \<and>
       (\<forall>m\<in>set ys. create c < create m) \<and> (\<forall>m\<in>set zs. create c \<le> create m)"
      by (intro Cons.IH [where yp = pre and zp = "[]"]) auto
    with True show ?thesis by simp
  next
    case False
    have "\<exists>c ys zs. earliest_loop xs (Some e) = Some c \<and>
       (pre @ [x]) @ xs = ys @ c # zs \<and>
       (\<forall>m\<in>set ys. create c < create m) \<and> (\<forall>m\<in>set zs. create c \<le> create m)"
      using Cons.prems False
      by (intro Cons.IH [where yp = yp and zp = "zp @ [x]"]) auto
    with False show ?thesis by simp
  qed
qed

lemma earliest_split:
  assumes "tx_list \<noteq> []"
  shows "\<exists>c ys zs. earliest tx_list = Some c \<and> tx_list = ys @ c # zs \<and>
     (\<forall>m\<in>set ys. create c < create m) \<and> (\<forall>m\<in>set zs. create c \<le> create m)"
proof -
  obtain x xs where tx_list: "tx_list = x # xs"
    using assms by (cases tx_list) auto
  have "\<exists>c ys zs. earliest_loop xs (Some x) = Some c \<and> [x] @ xs = ys @ c # zs \<and>
     (\<forall>m\<in>set ys. create c < create m) \<and> (\<forall>m\<in>set zs. create c \<le> create m)"
    by (intro earliest_loop_split [where yp = "[]" and zp = "[]"]) auto
  then show ?thesis
    by (simp add: earliest_def tx_list)
qed

text \<open>
  C5. In a group of at least two members the canonical record is a member with the least
  creation time, and it is the first such member in input order: every member before it
  was created strictly later, every member after it at the same time or later. The selection
  is a function of the member sequence, so the same sequence gives the same record.
\<close>

theorem canonical_is_first_minimum:
  assumes "2 \<le> length tx_list"
  shows "\<exists>c ys zs. earliest tx_list = Some c \<and> tx_list = ys @ c # zs \<and>
     (\<forall>m\<in>set ys. create c < create m) \<and> (\<forall>m\<in>set zs. create c \<le> create m)"
proof -
  from assms have "tx_list \<noteq> []" by auto
  then show ?thesis by (rule earliest_split)
qed

theorem canonical_is_first_minimum_witness:
  "2 \<le> length [sample 1 5 ''a'', sample 2 3 ''b'', sample 3 3 ''c''] \<and>
   earliest [sample 1 5 ''a'', sample 2 3 ''b'', sample 3 3 ''c''] = Some (sample 2 3 ''b'') \<and>
   (\<exists>c ys zs. earliest [sample 1 5 ''a'', sample 2 3 ''b'', sample 3 3 ''c''] = Some c \<and>
      [sample 1 5 ''a'', sample 2 3 ''b'', sample 3 3 ''c''] = ys @ c # zs \<and>
      (\<forall>m\<in>set ys. create c < create m) \<and> (\<forall>m\<in>set zs. create c \<le> create m))"
  using canonical_is_first_minimum [of "[sample 1 5 ''a'', sample 2 3 ''b'', sample 3 3 ''c'']"]
  by (simp add: earliest_def sample_def)

section \<open>The card pattern\<close>

lemma nullable_iff: "[] \<in> lang isdecimal r \<longleftrightarrow> nullable r"
  by (induction r) (auto intro: star_nil)

lemma star_cons:
  "x # w \<in> star A \<longleftrightarrow> (\<exists>u v. w = u @ v \<and> x # u \<in> A \<and> v \<in> star A)"
proof
  assume "x # w \<in> star A"
  then show "\<exists>u v. w = u @ v \<and> x # u \<in> A \<and> v \<in> star A"
  proof (induction "x # w" arbitrary: w rule: star.induct)
    case (star_app u v)
    show ?case
    proof (cases u)
      case Nil
      with star_app show ?thesis by simp
    next
      case (Cons y u')
      with star_app show ?thesis by auto
    qed
  qed
next
  assume "\<exists>u v. w = u @ v \<and> x # u \<in> A \<and> v \<in> star A"
  then obtain u v where "w = u @ v" "x # u \<in> A" "v \<in> star A" by blast
  then have "(x # u) @ v \<in> star A" by (intro star_app)
  then show "x # w \<in> star A" using \<open>w = u @ v\<close> by simp
qed

lemma deriv_iff: "w \<in> lang isdecimal (deriv isdecimal x r) \<longleftrightarrow> x # w \<in> lang isdecimal r"
proof (induction r arbitrary: w)
  case (Seq r s)
  show ?case
    by (auto simp: Seq nullable_iff [of isdecimal, symmetric] Cons_eq_append_conv)
next
  case (Star r)
  show ?case
    by (auto simp: Star star_cons)
qed auto

lemma re_match_iff: "re_match isdecimal r s \<longleftrightarrow> (\<exists>u v. s = u @ v \<and> u \<in> lang isdecimal r)"
proof (induction s arbitrary: r)
  case Nil
  then show ?case by (simp add: nullable_iff [of isdecimal, symmetric])
next
  case (Cons x s)
  show ?case
    by (auto simp: Cons nullable_iff [of isdecimal, symmetric] deriv_iff Cons_eq_append_conv)
qed

text \<open>\<open>re_search\<close> finds a match exactly when some substring is in the language.\<close>

lemma re_search_iff: "re_search isdecimal r s \<longleftrightarrow> (\<exists>p u v. s = p @ u @ v \<and> u \<in> lang isdecimal r)"
proof (induction s)
  case Nil
  then show ?case by (simp add: nullable_iff [of isdecimal, symmetric])
next
  case (Cons x s)
  have "(\<exists>p u v. x # s = p @ u @ v \<and> u \<in> lang isdecimal r) \<longleftrightarrow>
        (\<exists>u v. x # s = u @ v \<and> u \<in> lang isdecimal r) \<or> (\<exists>p u v. s = p @ u @ v \<and> u \<in> lang isdecimal r)"
    (is "?L \<longleftrightarrow> ?A \<or> ?B")
  proof
    assume ?L
    then obtain p u v where puv: "x # s = p @ u @ v" "u \<in> lang isdecimal r" by blast
    show "?A \<or> ?B"
    proof (cases p)
      case Nil
      with puv show ?thesis by auto
    next
      case (Cons y p')
      with puv have "s = p' @ u @ v" by simp
      with puv show ?thesis by blast
    qed
  next
    assume "?A \<or> ?B"
    then show ?L
    proof
      assume ?A
      then obtain u v where "x # s = [] @ u @ v" "u \<in> lang isdecimal r" by auto
      then show ?L by blast
    next
      assume ?B
      then obtain p u v where "x # s = (x # p) @ u @ v" "u \<in> lang isdecimal r" by auto
      then show ?L by blast
    qed
  qed
  then show ?case
    by (simp only: re_search.simps re_match_iff Cons)
qed

lemma lang_Lit: "lang isdecimal (Lit s) = {s}"
  by (induction s) auto

lemma star_atoms: "star {[x] | x. P x} = {w. \<forall>x\<in>set w. P x}"
proof (intro set_eqI iffI)
  fix w assume "w \<in> star {[x] | x. P x}"
  then show "w \<in> {w. \<forall>x\<in>set w. P x}"
    by (induction rule: star.induct) auto
next
  fix w assume "w \<in> {w. \<forall>x\<in>set w. P x}"
  then have "\<forall>x\<in>set w. P x" by simp
  then show "w \<in> star {[x] | x. P x}"
  proof (induction w)
    case Nil
    show ?case by (rule star_nil)
  next
    case (Cons y w)
    then have "[y] @ w \<in> star {[x] | x. P x}"
      by (intro star_app) auto
    then show ?case by simp
  qed
qed

lemma lang_Plus_Atom: "lang isdecimal (Plus (Atom c)) = {w. w \<noteq> [] \<and> (\<forall>x\<in>set w. cls_has isdecimal c x)}"
proof -
  have "\<exists>u v. w = u @ v \<and> (\<exists>x. u = [x] \<and> cls_has isdecimal c x) \<and> (\<forall>x\<in>set v. cls_has isdecimal c x)"
    if "w \<noteq> []" and "\<forall>x\<in>set w. cls_has isdecimal c x" for w
  proof -
    from that obtain a l where "w = a # l" by (cases w) auto
    with that have "w = [a] @ l \<and> (\<exists>x. [a] = [x] \<and> cls_has isdecimal c x) \<and> (\<forall>x\<in>set l. cls_has isdecimal c x)"
      by simp
    then show ?thesis by blast
  qed
  then show ?thesis
    by (auto simp: Plus_def star_atoms)
qed

lemma lang_Plus_Digit: "w \<in> lang isdecimal (Plus (Atom Digit)) \<longleftrightarrow> digits isdecimal w"
  by (simp only: lang_Plus_Atom digits_def cls_has.simps mem_Collect_eq)

lemma lang_Plus_Upper: "w \<in> lang isdecimal (Plus (Atom Upper)) \<longleftrightarrow> capitals w"
  by (simp only: lang_Plus_Atom capitals_def cls_has.simps mem_Collect_eq)

lemma lang_Exactly: "w \<in> lang isdecimal (Atom (Exactly c)) \<longleftrightarrow> w = [c]"
  by auto

lemma in_lang_Seq:
  "u \<in> lang isdecimal (Seq r s) \<longleftrightarrow> (\<exists>a b. u = a @ b \<and> a \<in> lang isdecimal r \<and> b \<in> lang isdecimal s)"
  by auto

lemma in_lang_Lit: "u \<in> lang isdecimal (Lit l) \<longleftrightarrow> u = l"
  by (simp add: lang_Lit)

text \<open>The language of the pattern, built up from its last component.\<close>

lemma shape5:
  "u \<in> lang isdecimal (Seq (Plus (Atom Upper)) (Atom (Exactly c2))) \<longleftrightarrow>
     (\<exists>cs. u = cs @ [c2] \<and> capitals cs)"
  by (subst in_lang_Seq) (auto simp add: lang_Plus_Upper lang_Exactly simp del: lang.simps)

lemma shape4:
  "u \<in> lang isdecimal (Seq (Lit l2) (Seq (Plus (Atom Upper)) (Atom (Exactly c2)))) \<longleftrightarrow>
     (\<exists>cs. u = l2 @ cs @ [c2] \<and> capitals cs)"
  by (subst in_lang_Seq) (auto simp add: shape5 in_lang_Lit simp del: lang.simps)

lemma shape3:
  "u \<in> lang isdecimal (Seq (Plus (Atom Digit)) (Seq (Lit l2) (Seq (Plus (Atom Upper))
         (Atom (Exactly c2))))) \<longleftrightarrow>
     (\<exists>ds2 cs. u = ds2 @ l2 @ cs @ [c2] \<and> digits isdecimal ds2 \<and> capitals cs)"
  by (subst in_lang_Seq) (auto simp add: shape4 lang_Plus_Digit simp del: lang.simps)

lemma shape2:
  "u \<in> lang isdecimal (Seq (Atom (Exactly c1)) (Seq (Plus (Atom Digit)) (Seq (Lit l2)
         (Seq (Plus (Atom Upper)) (Atom (Exactly c2)))))) \<longleftrightarrow>
     (\<exists>ds2 cs. u = [c1] @ ds2 @ l2 @ cs @ [c2] \<and> digits isdecimal ds2 \<and> capitals cs)"
  by (subst in_lang_Seq) (auto simp add: shape3 lang_Exactly simp del: lang.simps)

lemma shape1:
  "u \<in> lang isdecimal (Seq (Plus (Atom Digit)) (Seq (Atom (Exactly c1)) (Seq (Plus (Atom Digit))
         (Seq (Lit l2) (Seq (Plus (Atom Upper)) (Atom (Exactly c2))))))) \<longleftrightarrow>
     (\<exists>ds1 ds2 cs. u = ds1 @ [c1] @ ds2 @ l2 @ cs @ [c2] \<and>
        digits isdecimal ds1 \<and> digits isdecimal ds2 \<and> capitals cs)"
  by (subst in_lang_Seq) (auto simp add: shape2 lang_Plus_Digit simp del: lang.simps)

lemma shape0:
  "u \<in> lang isdecimal (Seq (Lit l1) (Seq (Plus (Atom Digit)) (Seq (Atom (Exactly c1))
         (Seq (Plus (Atom Digit)) (Seq (Lit l2) (Seq (Plus (Atom Upper))
         (Atom (Exactly c2)))))))) \<longleftrightarrow>
     (\<exists>ds1 ds2 cs. u = l1 @ ds1 @ [c1] @ ds2 @ l2 @ cs @ [c2] \<and>
        digits isdecimal ds1 \<and> digits isdecimal ds2 \<and> capitals cs)"
  by (subst in_lang_Seq) (auto simp add: shape1 in_lang_Lit simp del: lang.simps)

lemma ustr_single: "ustr [c] = [cp c]"
  by (simp add: ustr_def)

lemma lang_pattern:
  "u \<in> lang isdecimal pattern \<longleftrightarrow>
     (\<exists>ds1 ds2 cs.
        u = ustr ''Card transaction of '' @ ds1 @ ustr ''.'' @ ds2 @ ustr '' ('' @ cs @ ustr '')'' \<and>
        digits isdecimal ds1 \<and> digits isdecimal ds2 \<and> capitals cs)"
  unfolding pattern_def ustr_single by (rule shape0)

lemma card_rule_iff:
  "card_rule isdecimal m \<longleftrightarrow>
     (\<exists>pre ds1 ds2 cs post.
        py_str (paymt_purpose m) =
          pre @ ustr ''Card transaction of '' @ ds1 @ ustr ''.'' @ ds2 @ ustr '' ('' @ cs @
          ustr '')'' @ post \<and>
        digits isdecimal ds1 \<and> digits isdecimal ds2 \<and> capitals cs)"
proof -
  have "card_rule isdecimal m \<longleftrightarrow>
     (\<exists>pre u post. py_str (paymt_purpose m) = pre @ u @ post \<and> u \<in> lang isdecimal pattern)"
    by (simp only: card_rule_def re_search_iff)
  also have "\<dots> \<longleftrightarrow>
     (\<exists>pre ds1 ds2 cs post.
        py_str (paymt_purpose m) =
          pre @ (ustr ''Card transaction of '' @ ds1 @ ustr ''.'' @ ds2 @ ustr '' ('' @ cs @
          ustr '')'') @ post \<and>
        digits isdecimal ds1 \<and> digits isdecimal ds2 \<and> capitals cs)"
    unfolding lang_pattern by blast
  finally show ?thesis by (simp only: append_assoc)
qed

text \<open>The matcher asks the table only about code points of the text it searches.\<close>

lemma cls_has_table: "t1 x = t2 x \<Longrightarrow> cls_has t1 c x = cls_has t2 c x"
  by (cases c) simp_all

lemma deriv_table: "t1 x = t2 x \<Longrightarrow> deriv t1 x r = deriv t2 x r"
  by (induction r) (simp_all add: cls_has_table [of t1 x t2])

lemma re_match_table: "\<forall>x\<in>set s. t1 x = t2 x \<Longrightarrow> re_match t1 r s = re_match t2 r s"
  by (induction s arbitrary: r) (simp_all add: deriv_table [of t1 _ t2])

lemma re_search_table: "\<forall>x\<in>set s. t1 x = t2 x \<Longrightarrow> re_search t1 r s = re_search t2 r s"
proof (induction s)
  case Nil
  show ?case by simp
next
  case (Cons x s)
  then have "re_match t1 r (x # s) = re_match t2 r (x # s)"
    by (intro re_match_table) simp
  with Cons show ?case by simp
qed

lemma card_rule_table:
  "\<forall>x\<in>set (py_str (paymt_purpose m)). t1 x = t2 x \<Longrightarrow> card_rule t1 m = card_rule t2 m"
  by (simp add: card_rule_def re_search_table [of _ t1 t2])

text \<open>
  C4, as the code has it. The first rule fires for a member exactly when its purpose text
  contains \<open>Card transaction of\<close>, a run of decimal digits (any code points that \<^verbatim>\<open>\d\<close>
  matches), a point, a run of decimal digits, a space and a parenthesised run of one or
  more capital letters \<open>A\<close> to \<open>Z\<close> (not necessarily three); and when it fires the member is
  classified by that rule whatever the canonical record's purpose is.
\<close>

theorem card_rule_fires_iff:
  "(card_rule isdecimal m \<longleftrightarrow>
     (\<exists>pre ds1 ds2 cs post.
        py_str (paymt_purpose m) =
          pre @ ustr ''Card transaction of '' @ ds1 @ ustr ''.'' @ ds2 @ ustr '' ('' @ cs @
          ustr '')'' @ post \<and>
        digits isdecimal ds1 \<and> digits isdecimal ds2 \<and> capitals cs)) \<and>
   (card_rule isdecimal m \<longrightarrow> (\<forall>c. classify isdecimal m c = CardRule))"
proof (intro conjI)
  show "card_rule isdecimal m \<longleftrightarrow>
     (\<exists>pre ds1 ds2 cs post.
        py_str (paymt_purpose m) =
          pre @ ustr ''Card transaction of '' @ ds1 @ ustr ''.'' @ ds2 @ ustr '' ('' @ cs @
          ustr '')'' @ post \<and>
        digits isdecimal ds1 \<and> digits isdecimal ds2 \<and> capitals cs)"
    by (rule card_rule_iff)
  show "card_rule isdecimal m \<longrightarrow> (\<forall>c. classify isdecimal m c = CardRule)"
    by (simp add: classify_def)
qed

text \<open>Evaluation on ASCII text.\<close>

lemma cp_values:
  "cp CHR ''A'' = 65" "cp CHR ''Z'' = 90" "cp CHR ''0'' = 48" "cp CHR ''9'' = 57"
  by (simp_all add: cp_def)

lemma card_rule_sample:
  "card_rule isdecimal (sample i c p) = re_search isdecimal pattern (ustr p)"
  by (simp add: card_rule_def sample_def)

lemma card_USD: "card_rule ascii_isdecimal (sample i c ''Card transaction of 12.34 (USD)'')"
  by (simp add: card_rule_sample pattern_def Plus_def ustr_def cp_def ascii_isdecimal_def)

lemma card_US: "card_rule ascii_isdecimal (sample i c ''Card transaction of 12.34 (US)'')"
  by (simp add: card_rule_sample pattern_def Plus_def ustr_def cp_def ascii_isdecimal_def)

lemma not_spec_US:
  "\<not> re_search ascii_isdecimal spec_pattern (ustr ''Card transaction of 12.34 (US)'')"
  by (simp add: spec_pattern_def Plus_def ustr_def cp_def ascii_isdecimal_def)

theorem card_rule_fires_iff_witness:
  "card_rule ascii_isdecimal (sample 2 2 ''Card transaction of 12.34 (USD)'') \<and>
   classify ascii_isdecimal (sample 2 2 ''Card transaction of 12.34 (USD)'') (sample 1 1 ''Rent'') =
     CardRule \<and>
   (\<exists>pre ds1 ds2 cs post.
        py_str (paymt_purpose (sample 2 2 ''Card transaction of 12.34 (USD)'')) =
          pre @ ustr ''Card transaction of '' @ ds1 @ ustr ''.'' @ ds2 @ ustr '' ('' @ cs @
          ustr '')'' @ post \<and>
        digits ascii_isdecimal ds1 \<and> digits ascii_isdecimal ds2 \<and> capitals cs)"
  using card_rule_fires_iff [of ascii_isdecimal "sample 2 2 ''Card transaction of 12.34 (USD)''"]
    card_USD [of 2 2]
  by blast

text \<open>
  C4 as stated fails: a purpose with a two-letter code makes the first rule fire, although
  it does not match the pattern with a three-letter code.
\<close>

theorem card_rule_two_letter_code:
  "card_rule ascii_isdecimal (sample 2 2 ''Card transaction of 12.34 (US)'') \<and>
   classify ascii_isdecimal (sample 2 2 ''Card transaction of 12.34 (US)'') (sample 1 1 ''Rent'') =
     CardRule \<and>
   \<not> re_search ascii_isdecimal spec_pattern
       (py_str (paymt_purpose (sample 2 2 ''Card transaction of 12.34 (US)'')))"
  using card_US [of 2 2] not_spec_US
  by (simp add: classify_def) (simp add: sample_def)

section \<open>The analysis loop\<close>

lemma classify_loop_flagged:
  "transactions_to_delete_ids (classify_loop isdecimal c xs a) =
     transactions_to_delete_ids a @ map tx_id (filter (flagged isdecimal c) xs)"
  by (induction xs arbitrary: a) (auto simp: classify_def mark_def flagged_def)

lemma analyse_group_ids:
  "transactions_to_delete_ids (analyse_group isdecimal g a) =
     transactions_to_delete_ids a @ group_ids isdecimal g"
  by (simp add: analyse_group_def group_ids_def classify_loop_flagged split: option.splits)

lemma analyse_groups_ids:
  "transactions_to_delete_ids (analyse_groups isdecimal gs a) =
     transactions_to_delete_ids a @ concat (map (\<lambda>p. group_ids isdecimal (snd p)) gs)"
  by (induction gs arbitrary: a) (auto simp: analyse_group_ids)

lemma deletion_plan_eq:
  "deletion_plan isdecimal txs =
     concat (map (\<lambda>p. group_ids isdecimal (snd p)) (fst (find_duplicate_transactions txs)))"
  by (simp add: deletion_plan_def analyse_groups_ids no_analysis_def)

lemma earliest_member: "earliest g = Some c \<Longrightarrow> c \<in> set g"
proof (cases "g = []")
  case True
  assume "earliest g = Some c"
  with True show ?thesis by (simp add: earliest_def)
next
  case False
  assume "earliest g = Some c"
  with earliest_split [OF False] show ?thesis by auto
qed

text \<open>Evaluation of the samples.\<close>

lemma ustr_eq_iff: "ustr p = ustr q \<longleftrightarrow> p = q"
proof -
  have "inj cp"
    by (rule injI) (simp add: cp_def)
  then show ?thesis
    by (simp add: ustr_def inj_map_eq_map)
qed

lemma tx_key_sample: "tx_key (sample i c p) = Inr sample_key"
  by (simp add: tx_key_def sample_def date_of_def sample_key_def)

lemma sample_sel:
  "tx_id (sample i c p) = i" "create (sample i c p) = c"
  "paymt_purpose (sample i c p) = Val (ustr p)"
  "entry_date (sample i c p) \<noteq> PyNone" "amount (sample i c p) \<noteq> PyNone"
  by (simp_all add: sample_def)

lemma sample_eq: "sample i c p = sample j d q \<longleftrightarrow> i = j \<and> c = d \<and> p = q"
  by (auto simp: sample_def ustr_eq_iff)

lemma flagged_sample:
  "flagged isdecimal (sample i c p) (sample j d q) \<longleftrightarrow>
     c < d \<and> (card_rule isdecimal (sample j d q) \<or> q = p)"
  by (simp add: flagged_def sample_sel ustr_eq_iff)

lemma fdt_pair:
  assumes "tx_key a = Inr k" and "tx_key b = Inr k"
  shows "find_duplicate_transactions [a, b] = ([(k, [a, b])], 0)"
  using assms tx_key_not_None [OF assms(1)] tx_key_not_None [OF assms(2)]
  by (simp add: find_duplicate_transactions_def)

lemma fdt_triple:
  assumes "tx_key a = Inr k" and "tx_key b = Inr k" and "tx_key c = Inr k"
  shows "find_duplicate_transactions [a, b, c] = ([(k, [a, b, c])], 0)"
  using assms tx_key_not_None [OF assms(1)] tx_key_not_None [OF assms(2)]
    tx_key_not_None [OF assms(3)]
  by (simp add: find_duplicate_transactions_def)

lemma not_card_Coffee: "\<not> card_rule ascii_isdecimal (sample i c ''Coffee'')"
  by (simp add: card_rule_sample pattern_def Plus_def ustr_def cp_def ascii_isdecimal_def)

lemma not_card_Rent: "\<not> card_rule ascii_isdecimal (sample i c ''Rent'')"
  by (simp add: card_rule_sample pattern_def Plus_def ustr_def cp_def ascii_isdecimal_def)

lemma card_EUR: "card_rule ascii_isdecimal (sample i c ''Card transaction of 42.00 (EUR)'')"
  by (simp add: card_rule_sample pattern_def Plus_def ustr_def cp_def ascii_isdecimal_def)

text \<open>
  C3, as the code has it. With canonical record \<open>c\<close>, a group adds to the plan the ids of
  exactly those members that were created strictly later than \<open>c\<close> and for which the card
  rule or the purpose rule holds, in member order. A member created at the same time as
  \<open>c\<close> is not classified.
\<close>

theorem later_members_classified:
  assumes "earliest tx_list = Some c"
  shows "transactions_to_delete_ids (analyse_group isdecimal tx_list a) =
     transactions_to_delete_ids a @
     map tx_id (filter (\<lambda>m. create c < create m \<and>
                          (card_rule isdecimal m \<or> paymt_purpose m = paymt_purpose c)) tx_list)"
  using assms by (simp add: analyse_group_def classify_loop_flagged flagged_def [abs_def])

theorem later_members_classified_witness:
  "earliest [sample 1 5 ''Coffee'', sample 2 5 ''Coffee'', sample 3 6 ''Coffee'',
             sample 4 7 ''Rent'', sample 5 8 ''Card transaction of 42.00 (EUR)''] =
     Some (sample 1 5 ''Coffee'') \<and>
   transactions_to_delete_ids
     (analyse_group ascii_isdecimal
        [sample 1 5 ''Coffee'', sample 2 5 ''Coffee'', sample 3 6 ''Coffee'',
         sample 4 7 ''Rent'', sample 5 8 ''Card transaction of 42.00 (EUR)'']
        no_analysis) = [3, 5]"
proof -
  have e: "earliest [sample 1 5 ''Coffee'', sample 2 5 ''Coffee'', sample 3 6 ''Coffee'',
             sample 4 7 ''Rent'', sample 5 8 ''Card transaction of 42.00 (EUR)''] =
     Some (sample 1 5 ''Coffee'')"
    by (simp add: earliest_def sample_sel)
  show ?thesis
    using later_members_classified [OF e, of ascii_isdecimal no_analysis]
    by (simp add: e no_analysis_def sample_sel not_card_Coffee not_card_Rent card_EUR
        ustr_eq_iff)
qed

text \<open>
  C3 as stated fails on a tie: the second of two records with the same creation time is not
  the canonical one and has the canonical record's purpose, yet it is not put in the plan.
\<close>

theorem tie_member_not_classified:
  "fst (find_duplicate_transactions [sample 1 5 ''Coffee'', sample 2 5 ''Coffee'']) =
     [(sample_key, [sample 1 5 ''Coffee'', sample 2 5 ''Coffee''])] \<and>
   earliest [sample 1 5 ''Coffee'', sample 2 5 ''Coffee''] = Some (sample 1 5 ''Coffee'') \<and>
   sample 2 5 ''Coffee'' \<noteq> sample 1 5 ''Coffee'' \<and>
   paymt_purpose (sample 2 5 ''Coffee'') = paymt_purpose (sample 1 5 ''Coffee'') \<and>
   tx_id (sample 2 5 ''Coffee'') \<notin>
     set (deletion_plan ascii_isdecimal [sample 1 5 ''Coffee'', sample 2 5 ''Coffee''])"
  by (simp add: deletion_plan_eq fdt_pair [OF tx_key_sample tx_key_sample] group_ids_def
      earliest_def sample_sel sample_eq flagged_sample)

lemma purpose_differs:
  "card_rule isdecimal a \<Longrightarrow> \<not> card_rule isdecimal b \<Longrightarrow> paymt_purpose b \<noteq> paymt_purpose a"
  by (auto simp: card_rule_def)

text \<open>
  C1, as the code has it. For two transactions with the same key, one with a card purpose
  and one without, given in either order: the card one is put in the plan exactly when it
  was created strictly later than the other; otherwise the plan is empty.
\<close>

theorem card_member_flagged_when_later:
  assumes "tx_key a = Inr k" and "tx_key b = Inr k"
    and "card_rule isdecimal a" and "\<not> card_rule isdecimal b"
  shows "deletion_plan isdecimal [a, b] = (if create b < create a then [tx_id a] else []) \<and>
         deletion_plan isdecimal [b, a] = (if create b < create a then [tx_id a] else [])"
  using assms(3,4) purpose_differs [OF assms(3,4)]
  by (simp add: deletion_plan_eq fdt_pair [OF assms(1,2)] fdt_pair [OF assms(2,1)]
      group_ids_def earliest_def flagged_def)

theorem card_member_flagged_when_later_witness:
  "tx_key (sample 1 2 ''Card transaction of 42.00 (EUR)'') = Inr sample_key \<and>
   tx_key (sample 2 1 ''Rent'') = Inr sample_key \<and>
   card_rule ascii_isdecimal (sample 1 2 ''Card transaction of 42.00 (EUR)'') \<and>
   \<not> card_rule ascii_isdecimal (sample 2 1 ''Rent'') \<and>
   deletion_plan ascii_isdecimal
     [sample 1 2 ''Card transaction of 42.00 (EUR)'', sample 2 1 ''Rent''] = [1] \<and>
   deletion_plan ascii_isdecimal
     [sample 2 1 ''Rent'', sample 1 2 ''Card transaction of 42.00 (EUR)''] = [1]"
  using card_member_flagged_when_later [of "sample 1 2 ''Card transaction of 42.00 (EUR)''"
      sample_key "sample 2 1 ''Rent''" ascii_isdecimal]
  by (simp add: tx_key_sample card_EUR not_card_Rent sample_sel)

text \<open>
  C1 as stated fails when the card record was created first: it is the canonical record,
  the other one matches neither rule, and nothing is put in the plan.
\<close>

theorem card_member_created_first:
  "tx_key (sample 1 1 ''Card transaction of 42.00 (EUR)'') = tx_key (sample 2 2 ''Rent'') \<and>
   card_rule ascii_isdecimal (sample 1 1 ''Card transaction of 42.00 (EUR)'') \<and>
   \<not> card_rule ascii_isdecimal (sample 2 2 ''Rent'') \<and>
   fst (find_duplicate_transactions
          [sample 1 1 ''Card transaction of 42.00 (EUR)'', sample 2 2 ''Rent'']) =
     [(sample_key, [sample 1 1 ''Card transaction of 42.00 (EUR)'', sample 2 2 ''Rent''])] \<and>
   deletion_plan ascii_isdecimal
     [sample 1 1 ''Card transaction of 42.00 (EUR)'', sample 2 2 ''Rent''] = []"
  by (simp add: deletion_plan_eq fdt_pair [OF tx_key_sample tx_key_sample] group_ids_def
      earliest_def sample_sel flagged_sample tx_key_sample card_EUR not_card_Rent)

text \<open>
  C6, as the code has it. Every id in the plan is the id of a member of a returned group,
  which has at least two members, and that member was created strictly later than the
  group's canonical record. When records with the same id have the same creation time (in
  particular when ids are unique, as within one ledger account), the id also differs from
  the id of the canonical record.
\<close>

theorem plan_sound:
  assumes i: "i \<in> set (deletion_plan isdecimal txs)"
  shows "\<exists>(k, g)\<in>set (fst (find_duplicate_transactions txs)).
           2 \<le> length g \<and>
           (\<exists>m\<in>set g. \<exists>c. earliest g = Some c \<and> tx_id m = i \<and> create c < create m \<and>
              ((\<forall>a\<in>set txs. \<forall>b\<in>set txs. tx_id a = tx_id b \<longrightarrow> create a = create b)
               \<longrightarrow> tx_id c \<noteq> i))"
proof -
  from i obtain k g where kg: "(k, g) \<in> set (fst (find_duplicate_transactions txs))"
    and ig: "i \<in> set (group_ids isdecimal g)"
    by (auto simp: deletion_plan_eq)
  from ig obtain c m where c: "earliest g = Some c"
    and m: "m \<in> set g" "flagged isdecimal c m" "tx_id m = i"
    by (cases "earliest g") (auto simp: group_ids_def)
  from kg have g: "g = filter (keyed k) txs" "1 < length g"
    using find_duplicate_transactions_groups [of k g txs] by blast+
  have later: "create c < create m"
    using m(2) by (simp add: flagged_def)
  have mem: "c \<in> set txs" "m \<in> set txs"
    using earliest_member [OF c] m(1) g(1) by auto
  have ne: "tx_id c \<noteq> i"
    if ids: "\<forall>a\<in>set txs. \<forall>b\<in>set txs. tx_id a = tx_id b \<longrightarrow> create a = create b"
  proof
    assume "tx_id c = i"
    then have "tx_id c = tx_id m" using m(3) by simp
    with ids mem have "create c = create m" by blast
    with later show False by simp
  qed
  have "\<exists>c. earliest g = Some c \<and> tx_id m = i \<and> create c < create m \<and>
         ((\<forall>a\<in>set txs. \<forall>b\<in>set txs. tx_id a = tx_id b \<longrightarrow> create a = create b)
          \<longrightarrow> tx_id c \<noteq> i)"
    using c m(3) later ne by blast
  with m(1) have "\<exists>m\<in>set g. \<exists>c. earliest g = Some c \<and> tx_id m = i \<and> create c < create m \<and>
         ((\<forall>a\<in>set txs. \<forall>b\<in>set txs. tx_id a = tx_id b \<longrightarrow> create a = create b)
          \<longrightarrow> tx_id c \<noteq> i)"
    by (rule rev_bexI)
  moreover have "2 \<le> length g" using g(2) by simp
  ultimately show ?thesis
    using kg by (intro bexI [where x = "(k, g)"]) simp_all
qed

lemma plan_Coffee_Coffee_Rent:
  "deletion_plan ascii_isdecimal
     [sample 1 1 ''Coffee'', sample 2 2 ''Coffee'', sample 3 3 ''Rent''] = [2]"
  by (simp add: deletion_plan_eq fdt_triple [OF tx_key_sample tx_key_sample tx_key_sample]
      group_ids_def earliest_def sample_sel flagged_sample not_card_Coffee not_card_Rent)

theorem plan_sound_witness:
  "distinct (map tx_id [sample 1 1 ''Coffee'', sample 2 2 ''Coffee'', sample 3 3 ''Rent'']) \<and>
   deletion_plan ascii_isdecimal
     [sample 1 1 ''Coffee'', sample 2 2 ''Coffee'', sample 3 3 ''Rent''] = [2] \<and>
   (\<exists>(k, g)\<in>set (fst (find_duplicate_transactions
                        [sample 1 1 ''Coffee'', sample 2 2 ''Coffee'', sample 3 3 ''Rent''])).
      2 \<le> length g \<and>
      (\<exists>m\<in>set g. \<exists>c. earliest g = Some c \<and> tx_id m = 2 \<and> create c < create m \<and>
         tx_id c \<noteq> 2))"
proof -
  let ?txs = "[sample 1 1 ''Coffee'', sample 2 2 ''Coffee'', sample 3 3 ''Rent'']"
  have ids: "\<forall>a\<in>set ?txs. \<forall>b\<in>set ?txs. tx_id a = tx_id b \<longrightarrow> create a = create b"
    by (simp add: sample_sel)
  have "2 \<in> set (deletion_plan ascii_isdecimal ?txs)"
    by (simp add: plan_Coffee_Coffee_Rent)
  note sound = plan_sound [OF this, unfolded eqTrueI [OF ids] simp_thms]
  have "distinct (map tx_id ?txs)"
    by (simp add: sample_sel)
  with plan_Coffee_Coffee_Rent sound show ?thesis
    by (intro conjI)
qed

text \<open>
  C6 as stated fails for an input in which two records carry the same id: the later one is
  put in the plan, and its id is the id of the canonical record of its group.
\<close>

theorem planned_id_is_canonical_id:
  "fst (find_duplicate_transactions [sample 1 1 ''Coffee'', sample 1 2 ''Coffee'']) =
     [(sample_key, [sample 1 1 ''Coffee'', sample 1 2 ''Coffee''])] \<and>
   earliest [sample 1 1 ''Coffee'', sample 1 2 ''Coffee''] = Some (sample 1 1 ''Coffee'') \<and>
   tx_id (sample 1 1 ''Coffee'') = 1 \<and>
   deletion_plan ascii_isdecimal [sample 1 1 ''Coffee'', sample 1 2 ''Coffee''] = [1]"
  by (simp add: deletion_plan_eq fdt_pair [OF tx_key_sample tx_key_sample] group_ids_def
      earliest_def sample_sel flagged_sample)

section \<open>Records that cannot be grouped\<close>

lemma tx_key_Inl_iff: "(\<exists>e. tx_key tx = Inl e) \<longleftrightarrow> missing_or_unparsable tx"
proof (cases "entry_date tx" rule: fromisoformat.cases; cases "amount tx" rule: py_float.cases)
qed (simp_all add: tx_key_def missing_or_unparsable_def)

lemma grouping_loop_bad:
  "missing_or_unparsable tx \<Longrightarrow>
   grouping_loop (tx # txs) (gs, n) = grouping_loop txs (gs, n + 1)"
  using tx_key_Inl_iff [of tx] by (auto split: sum.splits)

lemma grouping_loop_good:
  "\<not> missing_or_unparsable tx \<Longrightarrow>
   \<exists>k. tx_key tx = Inr k \<and>
       grouping_loop (tx # txs) (gs, n) = grouping_loop txs (dict_append k tx gs, n)"
  using tx_key_Inl_iff [of tx] tx_key_not_None [of tx]
  by (cases "tx_key tx") auto

lemma grouping_loop_skipped:
  "snd (grouping_loop txs (gs, n)) = n + length (filter missing_or_unparsable txs)"
proof (induction txs arbitrary: gs n)
  case Nil
  show ?case by simp
next
  case (Cons tx txs)
  show ?case
  proof (cases "missing_or_unparsable tx")
    case True
    then show ?thesis by (simp add: grouping_loop_bad Cons.IH del: grouping_loop.simps)
  next
    case False
    from grouping_loop_good [OF this, of txs gs n] show ?thesis
      using False by (auto simp: Cons.IH simp del: grouping_loop.simps)
  qed
qed

lemma grouping_loop_filter:
  "fst (grouping_loop txs (gs, n)) =
   fst (grouping_loop (filter (\<lambda>tx. \<not> missing_or_unparsable tx) txs) (gs, n'))"
proof (induction txs arbitrary: gs n n')
  case Nil
  show ?case by simp
next
  case (Cons tx txs)
  show ?case
  proof (cases "missing_or_unparsable tx")
    case True
    then show ?thesis
      using Cons.IH [of gs "n + 1" n'] by (simp add: grouping_loop_bad del: grouping_loop.simps)
  next
    case False
    from grouping_loop_good [OF this] obtain k where k: "tx_key tx = Inr k"
      "\<And>txs gs n. grouping_loop (tx # txs) (gs, n) = grouping_loop txs (dict_append k tx gs, n)"
      by (metis (no_types) sum.inject(2))
    show ?thesis
      using False Cons.IH [of "dict_append k tx gs" n n']
      by (simp add: k(2) del: grouping_loop.simps)
  qed
qed

lemma find_duplicate_transactions_parts:
  "snd (find_duplicate_transactions txs) = snd (grouping_loop txs ([], 0))"
  "fst (find_duplicate_transactions txs) =
     filter (\<lambda>(k, tx_list). length tx_list > 1) (fst (grouping_loop txs ([], 0)))"
  by (cases "grouping_loop txs ([], 0)"; simp add: find_duplicate_transactions_def)+

text \<open>
  C8. The grouping always returns. The skipped count is the number of records whose entry
  date or amount is missing or unparsable; the groups are those of the input without these
  records; and no such record is a member of a group.
\<close>

theorem bad_records_skipped:
  "snd (find_duplicate_transactions txs) = length (filter missing_or_unparsable txs) \<and>
   fst (find_duplicate_transactions txs) =
     fst (find_duplicate_transactions (filter (\<lambda>tx. \<not> missing_or_unparsable tx) txs)) \<and>
   (\<forall>(k, g)\<in>set (fst (find_duplicate_transactions txs)).
      \<forall>tx\<in>set g. \<not> missing_or_unparsable tx)"
proof (intro conjI)
  show "snd (find_duplicate_transactions txs) = length (filter missing_or_unparsable txs)"
    by (simp add: find_duplicate_transactions_parts grouping_loop_skipped)
  show "fst (find_duplicate_transactions txs) =
     fst (find_duplicate_transactions (filter (\<lambda>tx. \<not> missing_or_unparsable tx) txs))"
    using grouping_loop_filter [of txs "[]" 0 0]
    by (simp add: find_duplicate_transactions_parts)
  show "\<forall>(k, g)\<in>set (fst (find_duplicate_transactions txs)).
      \<forall>tx\<in>set g. \<not> missing_or_unparsable tx"
  proof (clarify)
    fix k g tx
    assume "(k, g) \<in> set (fst (find_duplicate_transactions txs))" and "tx \<in> set g"
      and bad: "missing_or_unparsable tx"
    then have "keyed k tx"
      by (simp add: find_duplicate_transactions_groups)
    with bad show False
      using tx_key_Inl_iff [of tx] by (auto simp: keyed_def)
  qed
qed

lemma sample_good: "\<not> missing_or_unparsable (sample i c p)"
  by (simp add: missing_or_unparsable_def sample_def)

lemma record_of_bad:
  "missing_or_unparsable (record_of 7 UNSET (Val (Decimal (- 4200) 2)))"
  "missing_or_unparsable (record_of 8 (Val DateJunk) (Val AmountJunk))"
  "missing_or_unparsable (record_of 9 PyNone PyNone)"
  by (simp_all add: missing_or_unparsable_def record_of_def)

theorem bad_records_skipped_witness:
  "find_duplicate_transactions
     [record_of 7 UNSET (Val (Decimal (- 4200) 2)), sample 1 1 ''Coffee'',
      record_of 8 (Val DateJunk) (Val AmountJunk), sample 2 2 ''Coffee'',
      record_of 9 PyNone PyNone] =
   ([(sample_key, [sample 1 1 ''Coffee'', sample 2 2 ''Coffee''])], 3)"
  using bad_records_skipped [of "[record_of 7 UNSET (Val (Decimal (- 4200) 2)),
      sample 1 1 ''Coffee'', record_of 8 (Val DateJunk) (Val AmountJunk),
      sample 2 2 ''Coffee'', record_of 9 PyNone PyNone]"]
  by (simp add: sample_good record_of_bad fdt_pair [OF tx_key_sample tx_key_sample]
      prod_eq_iff)

section \<open>Amounts are compared as floats\<close>

lemma two_positions:
  assumes "i < length xs" "j < length xs" "i \<noteq> j" "P (xs ! i)" "P (xs ! j)"
  shows "1 < length (filter P xs)"
proof -
  have "{i, j} \<subseteq> {k. k < length xs \<and> P (xs ! k)}"
    using assms by auto
  then have "card {i, j} \<le> card {k. k < length xs \<and> P (xs ! k)}"
    by (intro card_mono) auto
  then show ?thesis
    using assms(3) by (simp add: length_filter_conv_card)
qed

text \<open>
  C2, as the code has it. The key holds the amount as a float. Two transactions at
  different positions of the input, with the same entry date (whatever the time of day) and
  with amounts that \<^verbatim>\<open>float\<close> maps to the same number, are members of one returned group. This
  covers amounts that are the same decimal in different formattings, and also amounts that
  differ as decimals but round to the same float.
\<close>

theorem same_float_same_group:
  assumes "i < length txs" and "j < length txs" and "i \<noteq> j"
    and "entry_date (txs ! i) = Val (Datetime d t)"
    and "entry_date (txs ! j) = Val (Datetime d t')"
    and "amount (txs ! i) = Val (Decimal m s)"
    and "amount (txs ! j) = Val (Decimal m' s')"
    and "to_float64 (decimal_value m s) = to_float64 (decimal_value m' s')"
  shows "\<exists>g. ((d, to_float64 (decimal_value m s)), g)
               \<in> set (fst (find_duplicate_transactions txs)) \<and>
             txs ! i \<in> set g \<and> txs ! j \<in> set g"
proof -
  let ?k = "(d, to_float64 (decimal_value m s))"
  have ki: "keyed ?k (txs ! i)" and kj: "keyed ?k (txs ! j)"
    using assms(4-8) by (simp_all add: keyed_def tx_key_def date_of_def)
  have "1 < length (filter (keyed ?k) txs)"
    using assms(1-3) ki kj by (rule two_positions)
  then have "(?k, filter (keyed ?k) txs) \<in> set (fst (find_duplicate_transactions txs))"
    by (simp add: find_duplicate_transactions_groups)
  moreover have "txs ! i \<in> set (filter (keyed ?k) txs)" "txs ! j \<in> set (filter (keyed ?k) txs)"
    using assms(1,2) ki kj by simp_all
  ultimately show ?thesis by blast
qed

text \<open>The amounts \<open>-42.00\<close> and \<open>-42.0\<close>, at different times of the same day.\<close>

theorem same_float_same_group_witness:
  "decimal_value (- 4200) 2 = decimal_value (- 420) 1 \<and>
   (\<exists>g. (((2024, 3, 1), to_float64 (decimal_value (- 4200) 2)), g)
          \<in> set (fst (find_duplicate_transactions
                [record_of 1 (Val (Datetime (2024, 3, 1) 0)) (Val (Decimal (- 4200) 2)),
                 record_of 2 (Val (Datetime (2024, 3, 1) 3600)) (Val (Decimal (- 420) 1))])) \<and>
        record_of 1 (Val (Datetime (2024, 3, 1) 0)) (Val (Decimal (- 4200) 2)) \<in> set g \<and>
        record_of 2 (Val (Datetime (2024, 3, 1) 3600)) (Val (Decimal (- 420) 1)) \<in> set g)"
proof -
  have v: "decimal_value (- 4200) 2 = decimal_value (- 420) 1"
    by (simp add: decimal_value_def)
  have "\<exists>g. (((2024, 3, 1), to_float64 (decimal_value (- 4200) 2)), g)
          \<in> set (fst (find_duplicate_transactions
                [record_of 1 (Val (Datetime (2024, 3, 1) 0)) (Val (Decimal (- 4200) 2)),
                 record_of 2 (Val (Datetime (2024, 3, 1) 3600)) (Val (Decimal (- 420) 1))])) \<and>
        [record_of 1 (Val (Datetime (2024, 3, 1) 0)) (Val (Decimal (- 4200) 2)),
         record_of 2 (Val (Datetime (2024, 3, 1) 3600)) (Val (Decimal (- 420) 1))] ! 0 \<in> set g \<and>
        [record_of 1 (Val (Datetime (2024, 3, 1) 0)) (Val (Decimal (- 4200) 2)),
         record_of 2 (Val (Datetime (2024, 3, 1) 3600)) (Val (Decimal (- 420) 1))] ! 1 \<in> set g"
    by (rule same_float_same_group [where t = 0 and t' = 3600 and s = 2 and m' = "- 420"
          and s' = 1])
       (simp_all add: record_of_def v)
  with v show ?thesis by simp
qed

text \<open>
  C2 as stated fails: \<open>0.1\<close> and \<open>0.10000000000000001\<close> are different decimals, and the
  two transactions are put in one group, because both amounts round to the same float.
\<close>

lemma float_tenth:
  "to_float64 (decimal_value 10000000000000001 17) = to_float64 (decimal_value 1 1)"
  by code_simp

theorem distinct_decimals_one_group:
  "decimal_value 1 1 \<noteq> decimal_value 10000000000000001 17 \<and>
   fst (find_duplicate_transactions
          [record_of 1 (Val (Datetime (2024, 3, 1) 0)) (Val (Decimal 1 1)),
           record_of 2 (Val (Datetime (2024, 3, 1) 0)) (Val (Decimal 10000000000000001 17))]) =
     [(((2024, 3, 1), to_float64 (decimal_value 1 1)),
       [record_of 1 (Val (Datetime (2024, 3, 1) 0)) (Val (Decimal 1 1)),
        record_of 2 (Val (Datetime (2024, 3, 1) 0)) (Val (Decimal 10000000000000001 17))])]"
proof -
  have "decimal_value 1 1 \<noteq> decimal_value 10000000000000001 17"
    by (simp add: decimal_value_def)
  moreover have "tx_key (record_of 1 (Val (Datetime (2024, 3, 1) 0)) (Val (Decimal 1 1))) =
      Inr ((2024, 3, 1), to_float64 (decimal_value 1 1))"
    by (simp add: tx_key_def record_of_def date_of_def)
  moreover have "tx_key (record_of 2 (Val (Datetime (2024, 3, 1) 0))
        (Val (Decimal 10000000000000001 17))) =
      Inr ((2024, 3, 1), to_float64 (decimal_value 1 1))"
    by (simp add: tx_key_def record_of_def date_of_def float_tenth)
  ultimately show ?thesis
    by (simp add: fdt_pair)
qed

section \<open>The deletion phase\<close>

lemma call_delete_facts:
  "fst (call_delete_check_account_transaction client i p) =
     fst (delete_check_account_transaction client i (remote p))"
  "calls (snd (call_delete_check_account_transaction client i p)) =
     calls p @ [DeleteCheckAccountTransaction i]"
  "printed (snd (call_delete_check_account_transaction client i p)) = printed p"
  "stdin (snd (call_delete_check_account_transaction client i p)) = stdin p"
  by (simp_all add: call_delete_check_account_transaction_def split: prod.splits)

lemma py_print_facts:
  "calls (py_print l p) = calls p" "remote (py_print l p) = remote p"
  "stdin (py_print l p) = stdin p" "printed (py_print l p) = printed p @ [l]"
  by (simp_all add: py_print_def)

lemma delete_loop_counts:
  assumes "\<forall>i\<in>set ids. \<forall>w. (fst (delete_check_account_transaction client i w) = Raises) = bad i"
  shows "fst (delete_loop client ids (d, f) p) =
           (d + length (filter (\<lambda>i. \<not> bad i) ids), f + length (filter bad ids))"
  using assms
proof (induction ids arbitrary: d f p)
  case Nil
  show ?case by simp
next
  case (Cons i ids)
  obtain r p' where call:
    "call_delete_check_account_transaction client i (py_print (Attempting i) p) = (r, p')"
    by (cases "call_delete_check_account_transaction client i (py_print (Attempting i) p)")
  have r: "(r = Raises) = bad i"
    using Cons.prems call_delete_facts(1) [of client i "py_print (Attempting i) p"] call
    by simp
  have IH: "\<And>d f p. fst (delete_loop client ids (d, f) p) =
           (d + length (filter (\<lambda>i. \<not> bad i) ids), f + length (filter bad ids))"
    using Cons.IH Cons.prems by simp
  show ?case
  proof (cases r)
    case Raises
    with r call show ?thesis by (simp add: IH)
  next
    case (Returns u)
    with r call show ?thesis by (simp add: IH)
  qed
qed

lemma delete_loop_calls:
  "calls (snd (delete_loop client ids counts p)) =
     calls p @ map DeleteCheckAccountTransaction ids"
proof (induction ids arbitrary: counts p)
  case Nil
  show ?case by simp
next
  case (Cons i ids)
  obtain d f where counts: "counts = (d, f)" by (cases counts)
  obtain r p' where call:
    "call_delete_check_account_transaction client i (py_print (Attempting i) p) = (r, p')"
    by (cases "call_delete_check_account_transaction client i (py_print (Attempting i) p)")
  have "calls p' = calls p @ [DeleteCheckAccountTransaction i]"
    using call_delete_facts(2) [of client i "py_print (Attempting i) p"] call
    by (simp add: py_print_facts)
  then show ?case
    by (cases r) (simp_all add: counts call Cons.IH py_print_facts)
qed

lemma only_position:
  assumes k: "k < length plan"
    and sink: "\<forall>j<length plan. \<forall>w.
        (fst (delete_check_account_transaction client (plan ! j) w) = Raises) = (j = k)"
  shows "\<forall>i\<in>set plan. \<forall>w.
        (fst (delete_check_account_transaction client i w) = Raises) = (i = plan ! k)"
    and "length (filter (\<lambda>i. i = plan ! k) plan) = 1"
    and "length (filter (\<lambda>i. i \<noteq> plan ! k) plan) = length plan - 1"
proof -
  have same: "(plan ! j = plan ! k) = (j = k)" if "j < length plan" for j
  proof
    assume eq: "plan ! j = plan ! k"
    have "fst (delete_check_account_transaction client (plan ! k) undefined) = Raises"
      using sink k by blast
    with eq have "fst (delete_check_account_transaction client (plan ! j) undefined) = Raises"
      by simp
    with sink that show "j = k" by blast
  qed simp
  show "\<forall>i\<in>set plan. \<forall>w.
        (fst (delete_check_account_transaction client i w) = Raises) = (i = plan ! k)"
  proof (intro ballI allI)
    fix i w assume "i \<in> set plan"
    then obtain j where j: "j < length plan" "plan ! j = i"
      by (auto simp: in_set_conv_nth)
    with sink same [OF j(1)] show
      "(fst (delete_check_account_transaction client i w) = Raises) = (i = plan ! k)"
      by auto
  qed
  have "{j. j < length plan \<and> plan ! j = plan ! k} = {k}"
    using same k by auto
  then show one: "length (filter (\<lambda>i. i = plan ! k) plan) = 1"
    by (simp add: length_filter_conv_card)
  show "length (filter (\<lambda>i. i \<noteq> plan ! k) plan) = length plan - 1"
    using sum_length_filter_compl [of "\<lambda>i. i = plan ! k" plan] one by simp
qed

lemma ask_for_confirmation_facts:
  assumes "ask_loop (stdin p) = (r, rest, n)"
  shows "fst (ask_for_confirmation p) = r"
    and "calls (snd (ask_for_confirmation p)) = calls p"
    and "remote (snd (ask_for_confirmation p)) = remote p"
    and "printed (snd (ask_for_confirmation p)) = printed p @ replicate n PleaseAnswer"
  using assms by (simp_all add: ask_for_confirmation_def)

text \<open>
  C7. In an execution that is not a dry run and that the operator confirms, with a plan of
  \<open>N\<close> ids in which the deletion call fails (raises) for the id at position \<open>k\<close>, in
  whatever state of the ledger, and returns for the id at every other position: the
  deletion phase returns normally, the deletion calls made are those of the whole plan in
  plan order, and the last line printed is the summary with \<open>N - 1\<close> deleted and \<open>1\<close>
  failed.
\<close>

theorem deletion_isolation:
  assumes k: "k < length plan"
    and sink: "\<forall>j<length plan. \<forall>w.
        (fst (delete_check_account_transaction client (plan ! j) w) = Raises) = (j = k)"
    and confirmed: "ask_loop (stdin p) = (Inr True, rest, n)"
  shows "\<exists>p'. deletion_phase client False plan p = (Returned, p') \<and>
           calls p' = calls p @ map DeleteCheckAccountTransaction plan \<and>
           last (printed p') = DeletionSummary (length plan - 1) 1"
proof -
  from k have ne: "plan \<noteq> []" by auto
  let ?p0 = "py_print DeletionConfirmation p"
  have ask0: "ask_loop (stdin ?p0) = (Inr True, rest, n)"
    using confirmed by (simp add: py_print_facts)
  obtain p1 where p1: "ask_for_confirmation ?p0 = (Inr True, p1)" "calls p1 = calls p"
    using ask_for_confirmation_facts [OF ask0]
    by (cases "ask_for_confirmation ?p0") (simp add: py_print_facts)
  let ?p2 = "py_print UserConfirmed p1"
  obtain d f p3 where loop: "delete_loop client plan (0, 0) ?p2 = ((d, f), p3)"
    by (cases "delete_loop client plan (0, 0) ?p2") auto
  have "(d, f) = (length (filter (\<lambda>i. i \<noteq> plan ! k) plan), length (filter (\<lambda>i. i = plan ! k) plan))"
    using delete_loop_counts [OF only_position(1) [OF k sink], of 0 0 ?p2] loop by simp
  then have df: "d = length plan - 1" "f = 1"
    using only_position(2,3) [OF k sink] by simp_all
  have "calls p3 = calls ?p2 @ map DeleteCheckAccountTransaction plan"
    using delete_loop_calls [of client plan "(0, 0)" ?p2] loop by simp
  then have c3: "calls p3 = calls p @ map DeleteCheckAccountTransaction plan"
    by (simp add: py_print_facts p1(2))
  have "deletion_phase client False plan p =
      (Returned, py_print (DeletionSummary (length plan - 1) 1) p3)"
    using ne by (simp add: deletion_phase_def p1(1) loop df)
  then show ?thesis
    by (simp add: py_print_facts c3)
qed

theorem deletion_isolation_witness:
  "\<exists>p'. deletion_phase (demo_client [] 2) False [1, 2, 3] (demo_process [Unclear, Yes]) =
      (Returned, p') \<and>
    remote p' = [1, 3] \<and>
    calls p' = [DeleteCheckAccountTransaction 1, DeleteCheckAccountTransaction 2,
      DeleteCheckAccountTransaction 3] \<and>
    last (printed p') = DeletionSummary 2 1"
proof -
  have sink: "\<forall>j<length [1, 2, 3 :: int]. \<forall>w.
      (fst (delete_check_account_transaction (demo_client [] 2) ([1, 2, 3] ! j) w) = Raises) =
      (j = 1)"
    by (simp add: demo_client_def nth_Cons' less_Suc_eq)
  have ask: "ask_loop (stdin (demo_process [Unclear, Yes])) = (Inr True, [], 1)"
    by (simp add: demo_process_def)
  from deletion_isolation [OF _ sink ask]
  obtain p' where p': "deletion_phase (demo_client [] 2) False [1, 2, 3]
      (demo_process [Unclear, Yes]) = (Returned, p')"
    "calls p' = calls (demo_process [Unclear, Yes]) @ map DeleteCheckAccountTransaction [1, 2, 3]"
    "last (printed p') = DeletionSummary (length [1, 2, 3 :: int] - 1) 1"
    by auto
  have "remote p' = [1, 3]"
    using p'(1)
    by (simp add: deletion_phase_def ask_for_confirmation_def demo_process_def py_print_def
        call_delete_check_account_transaction_def demo_client_def)
       auto
  with p' show ?thesis
    by (simp add: demo_process_def)
qed

section \<open>The dry run\<close>

lemma mark_reported:
  "map snd (reported a) = transactions_to_delete_ids a \<Longrightarrow>
   map snd (reported (mark c tx a)) = transactions_to_delete_ids (mark c tx a)"
  by (simp add: mark_def)

lemma classify_loop_reported:
  "map snd (reported a) = transactions_to_delete_ids a \<Longrightarrow>
   map snd (reported (classify_loop isdecimal c xs a)) =
     transactions_to_delete_ids (classify_loop isdecimal c xs a)"
proof (induction xs arbitrary: a)
  case Nil
  then show ?case by simp
next
  case (Cons x xs)
  show ?case
    by (cases "classify isdecimal x c") (simp_all add: Cons.IH Cons.prems mark_reported)
qed

lemma analyse_groups_reported:
  "map snd (reported a) = transactions_to_delete_ids a \<Longrightarrow>
   map snd (reported (analyse_groups isdecimal gs a)) =
     transactions_to_delete_ids (analyse_groups isdecimal gs a)"
proof (induction gs arbitrary: a)
  case Nil
  then show ?case by simp
next
  case (Cons kg gs)
  obtain k g where kg: "kg = (k, g)" by (cases kg)
  have "map snd (reported (analyse_group isdecimal g a)) =
      transactions_to_delete_ids (analyse_group isdecimal g a)"
    using Cons.prems
    by (cases "earliest g") (simp_all add: analyse_group_def classify_loop_reported)
  then show ?case
    by (simp add: kg Cons.IH)
qed

lemma deletion_phase_dry:
  "ids \<noteq> [] \<Longrightarrow>
   deletion_phase client True ids p =
     (Returned, p\<lparr>printed := printed p @ [DeletionConfirmation, DryRunNoDeletions (length ids)]\<rparr>)"
  by (simp add: deletion_phase_def py_print_def)

text \<open>
  C9. In a dry run, when the plan computed from the fetched transactions is not empty, the
  run from the grouping on returns normally after printing the report, one
  \<^verbatim>\<open>[ORIGINAL]\<close>/\<^verbatim>\<open>[DUPLICATE]\<close> block for each planned id in plan order, and then the
  confirmation header and the dry-run line with the size of the plan. It makes no call of
  the client, so the remote ledger is as before, and it reads nothing from the console.
\<close>

theorem dry_run_reports_only:
  assumes plan: "deletion_plan isdecimal transactions \<noteq> []"
  shows "\<exists>p' pre rep.
     analyse_and_delete client isdecimal True transactions p = (Returned, p') \<and>
     remote p' = remote p \<and> calls p' = calls p \<and> stdin p' = stdin p \<and>
     map snd rep = deletion_plan isdecimal transactions \<and>
     printed p' =
       printed p @ pre @
       PotentialDuplicates # map (\<lambda>(original, duplicate). Marked original duplicate) rep @
       [DeletionConfirmation, DryRunNoDeletions (length (deletion_plan isdecimal transactions))]"
proof -
  obtain gs n where fdt: "find_duplicate_transactions transactions = (gs, n)"
    by (cases "find_duplicate_transactions transactions")
  let ?a = "analyse_groups isdecimal gs no_analysis"
  have ids: "transactions_to_delete_ids ?a = deletion_plan isdecimal transactions"
    by (simp add: deletion_plan_def fdt)
  have rep: "map snd (reported ?a) = deletion_plan isdecimal transactions"
    using analyse_groups_reported [of no_analysis isdecimal gs] ids
    by (simp add: no_analysis_def)
  have gs: "gs \<noteq> []"
    using plan ids by (auto simp: no_analysis_def)
  have txs: "transactions \<noteq> []"
    using gs fdt by (auto simp: find_duplicate_transactions_def)
  let ?pre = "(if n > 0 then [Skipped n] else []) @ [FoundGroups (length gs)]"
  let ?p' = "p\<lparr>printed := printed p @ ?pre @
       PotentialDuplicates # map (\<lambda>(original, duplicate). Marked original duplicate) (reported ?a) @
       [DeletionConfirmation, DryRunNoDeletions (length (deletion_plan isdecimal transactions))]\<rparr>"
  have "analyse_and_delete client isdecimal True transactions p = (Returned, ?p')"
    using txs gs plan
    by (simp add: analyse_and_delete_def fdt Let_def ids deletion_phase_dry py_print_def
        py_prints_def)
  then show ?thesis
    using rep by (intro exI [of _ ?p'] exI [of _ ?pre] exI [of _ "reported ?a"]) simp
qed

lemma plan_Coffee_Coffee:
  "deletion_plan ascii_isdecimal [sample 1 1 ''Coffee'', sample 2 2 ''Coffee''] = [2]"
  by (simp add: deletion_plan_eq fdt_pair [OF tx_key_sample tx_key_sample] group_ids_def
      earliest_def sample_sel flagged_sample)

theorem dry_run_reports_only_witness:
  "\<exists>p'. analyse_and_delete (demo_client [] 2) ascii_isdecimal True
           [sample 1 1 ''Coffee'', sample 2 2 ''Coffee''] (demo_process [Yes]) = (Returned, p') \<and>
         remote p' = [] \<and> calls p' = [] \<and> stdin p' = [Yes] \<and>
         printed p' =
           [FoundGroups 1, PotentialDuplicates, Marked 1 2, DeletionConfirmation,
            DryRunNoDeletions 1]"
proof -
  have "deletion_plan ascii_isdecimal [sample 1 1 ''Coffee'', sample 2 2 ''Coffee''] \<noteq> []"
    by (simp add: plan_Coffee_Coffee)
  from dry_run_reports_only [OF this, of "demo_client [] 2" "demo_process [Yes]"]
  obtain p' where p': "analyse_and_delete (demo_client [] 2) ascii_isdecimal True
           [sample 1 1 ''Coffee'', sample 2 2 ''Coffee''] (demo_process [Yes]) = (Returned, p')"
    "remote p' = remote (demo_process [Yes])" "calls p' = calls (demo_process [Yes])"
    "stdin p' = stdin (demo_process [Yes])"
    by blast
  have "printed p' =
      [FoundGroups 1, PotentialDuplicates, Marked 1 2, DeletionConfirmation,
       DryRunNoDeletions 1]"
    using p'(1)
    by (simp add: analyse_and_delete_def fdt_pair [OF tx_key_sample tx_key_sample]
        analyse_group_def earliest_def sample_sel classify_def not_card_Coffee mark_def
        no_analysis_def deletion_phase_def py_print_def py_prints_def demo_process_def)
       auto
  with p' show ?thesis
    by (simp add: demo_process_def)
qed

section \<open>Account resolution in a dry run\<close>

lemma call_get_check_accounts_facts:
  "fst (call_get_check_accounts client name p) = fst (get_check_accounts client name (remote p))"
  "calls (snd (call_get_check_accounts client name p)) = calls p @ [GetCheckAccounts name]"
  "printed (snd (call_get_check_accounts client name p)) = printed p"
  by (simp_all add: call_get_check_accounts_def split: prod.splits)

lemma cache_accounts_keeps:
  "dry_run (cache_accounts objects a) = dry_run a"
  "account_map (cache_accounts objects a) = account_map a"
  by (induction objects arbitrary: a) (simp_all split: field.splits)

lemma cache_accounts_by_name:
  "\<forall>acc\<in>set objects. ca_name acc \<noteq> Val n \<Longrightarrow>
   sevdesk_accounts_by_name (cache_accounts objects a) n = sevdesk_accounts_by_name a n"
  by (induction objects arbitrary: a) (auto split: field.splits)

lemma find_account_none:
  "\<forall>acc\<in>set objects. ca_name acc \<noteq> Val n \<Longrightarrow> find_account n objects = None"
  by (induction objects) (auto split: field.splits)

lemma no_account_namedD:
  "no_account_named client n \<Longrightarrow>
   fst (get_check_accounts client name w) = Returns (Some (Val objects)) \<Longrightarrow>
   \<forall>acc\<in>set objects. ca_name acc \<noteq> Val n"
  unfolding no_account_named_def by (metis prod.collapse)

lemma Accounts_fresh:
  assumes fresh: "no_account_named client n"
  shows "\<exists>r p'. Accounts client d p = (r, p') \<and>
           calls p' = calls p @ [GetCheckAccounts None] \<and>
           (case r of
              Inl e \<Rightarrow> e = SystemExit 1 \<and> printed p' = printed p @ [ERROR FailedToFetchAccounts]
            | Inr a \<Rightarrow> printed p' = printed p \<and> dry_run a = d \<and> account_map a = Map.empty \<and>
                       sevdesk_accounts_by_name a n = None)"
proof -
  obtain r p1 where call: "call_get_check_accounts client None p = (r, p1)"
    by (cases "call_get_check_accounts client None p")
  have r: "r = fst (get_check_accounts client None (remote p))"
    and c1: "calls p1 = calls p @ [GetCheckAccounts None]"
    and pr1: "printed p1 = printed p"
    using call_get_check_accounts_facts [of client None p] call by simp_all
  show ?thesis
  proof (cases r)
    case Raises
    then show ?thesis
      by (simp add: Accounts_def load_existing_accounts_def call die_def py_print_facts c1 pr1)
  next
    case (Returns res)
    show ?thesis
    proof (cases res)
      case None
      with Returns show ?thesis
        by (simp add: Accounts_def load_existing_accounts_def call c1 pr1)
    next
      case (Some objs)
      show ?thesis
      proof (cases objs)
        case (Val objects)
        have "\<forall>acc\<in>set objects. ca_name acc \<noteq> Val n"
          using no_account_namedD [OF fresh, of None "remote p" objects] r Returns Some Val
          by simp
        then show ?thesis
          using Returns Some Val
          by (simp add: Accounts_def load_existing_accounts_def call c1 pr1
              cache_accounts_keeps cache_accounts_by_name)
      qed (use Returns Some in
          \<open>simp_all add: Accounts_def load_existing_accounts_def call die_def py_print_facts c1 pr1\<close>)
    qed
  qed
qed

lemma get_or_create_fresh_dry:
  assumes fresh: "no_account_named client (generate_account_name identifier currency)"
    and a: "dry_run a" "account_map a = Map.empty"
      "sevdesk_accounts_by_name a (generate_account_name identifier currency) = None"
  shows "\<exists>e p'. get_or_create_account_id client a identifier currency p = (Inl e, p') \<and>
           exit_code (ended_by e) = 1 \<and>
           calls p' = calls p @ [GetCheckAccounts (Some (generate_account_name identifier currency))] \<and>
           (printed p' = printed p \<or> printed p' = printed p @ [ERROR CannotProceedInDryRun])"
proof -
  let ?n = "generate_account_name identifier currency"
  obtain r p1 where call: "call_get_check_accounts client (Some ?n) p = (r, p1)"
    by (cases "call_get_check_accounts client (Some ?n) p")
  have r: "r = fst (get_check_accounts client (Some ?n) (remote p))"
    and c1: "calls p1 = calls p @ [GetCheckAccounts (Some ?n)]"
    and pr1: "printed p1 = printed p"
    using call_get_check_accounts_facts [of client "Some ?n" p] call by simp_all
  have created: "create_account client a identifier currency ?n p1 =
      (Inl (SystemExit 1), py_print (ERROR CannotProceedInDryRun) p1)"
    using a(1) by (simp add: create_account_def die_def)
  show ?thesis
  proof (cases r)
    case Raises
    then show ?thesis
      by (simp add: get_or_create_account_id_def a call c1 pr1)
  next
    case (Returns res)
    show ?thesis
    proof (cases res)
      case None
      with Returns show ?thesis
        by (simp add: get_or_create_account_id_def a call created py_print_facts c1 pr1)
    next
      case (Some objs)
      show ?thesis
      proof (cases objs)
        case (Val objects)
        have "\<forall>acc\<in>set objects. ca_name acc \<noteq> Val ?n"
          using no_account_namedD [OF fresh, of "Some ?n" "remote p" objects] r Returns Some Val
          by simp
        then have "find_account ?n objects = None"
          by (rule find_account_none)
        then show ?thesis
          using Returns Some Val
          by (simp add: get_or_create_account_id_def a call created py_print_facts c1 pr1)
      qed (use Returns Some in
          \<open>simp_all add: get_or_create_account_id_def a call c1 pr1\<close>)
    qed
  qed
qed

text \<open>
  C10. In a dry run, when the service lists no account with the generated name, \<open>main\<close>
  terminates with exit status 1: through \<^verbatim>\<open>die\<close>, or through an exception of a lookup that
  nothing catches. The only client calls it makes are account lookups: it creates no
  account, fetches no transactions and deletes nothing. It prints no line of the report,
  only the message of \<^verbatim>\<open>die\<close>.
\<close>

theorem dry_run_fresh_account_exits:
  assumes dry: "args_dry_run args"
    and account: "args_account args = (identifier, currency)"
    and fresh: "no_account_named client (generate_account_name identifier currency)"
  shows "\<exists>oc p' cs ls. main client isdecimal args p = Some (oc, p') \<and>
           exit_code oc = 1 \<and>
           calls p' = calls p @ cs \<and> (\<forall>c\<in>set cs. \<exists>name. c = GetCheckAccounts name) \<and>
           printed p' = printed p @ ls \<and> (\<forall>l\<in>set ls. \<exists>m. l = ERROR m)"
proof -
  let ?n = "generate_account_name identifier currency"
  from Accounts_fresh [OF fresh, of True p]
  obtain r p1 where acc: "Accounts client True p = (r, p1)"
    and c1: "calls p1 = calls p @ [GetCheckAccounts None]"
    and r: "case r of
              Inl e \<Rightarrow> e = SystemExit 1 \<and> printed p1 = printed p @ [ERROR FailedToFetchAccounts]
            | Inr a \<Rightarrow> printed p1 = printed p \<and> dry_run a = True \<and> account_map a = Map.empty \<and>
                       sevdesk_accounts_by_name a ?n = None"
    by blast
  show ?thesis
  proof (cases r)
    case (Inl e)
    with r have "main client isdecimal args p = Some (Exit 1, p1)"
      "printed p1 = printed p @ [ERROR FailedToFetchAccounts]"
      by (simp_all add: main_def dry acc)
    with c1 show ?thesis by simp
  next
    case (Inr a)
    with r have a: "printed p1 = printed p" "dry_run a" "account_map a = Map.empty"
      "sevdesk_accounts_by_name a ?n = None"
      by simp_all
    from get_or_create_fresh_dry [OF fresh a(2-4), of p1]
    obtain e p2 where g: "get_or_create_account_id client a identifier currency p1 = (Inl e, p2)"
      and e: "exit_code (ended_by e) = 1"
      and c2: "calls p2 = calls p1 @ [GetCheckAccounts (Some ?n)]"
      and pr2: "printed p2 = printed p1 \<or> printed p2 = printed p1 @ [ERROR CannotProceedInDryRun]"
      by blast
    have m: "main client isdecimal args p = Some (ended_by e, p2)"
      by (simp add: main_def dry acc Inr account g)
    have "calls p2 = calls p @ [GetCheckAccounts None, GetCheckAccounts (Some ?n)]"
      by (simp add: c1 c2)
    moreover have "printed p2 = printed p @ [] \<or> printed p2 = printed p @ [ERROR CannotProceedInDryRun]"
      using pr2 a(1) by simp
    ultimately show ?thesis
      using m e by fastforce
  qed
qed

lemma demo_fresh:
  "no_account_named (demo_client [demo_account] 2)
     (generate_account_name (ustr ''BE00'') (ustr ''EUR''))"
  by (simp add: no_account_named_def demo_client_def demo_account_def
      generate_account_name_def ustr_def cp_def)

theorem dry_run_fresh_account_exits_witness:
  "main (demo_client [demo_account] 2) ascii_isdecimal demo_args (demo_process []) =
     Some (Exit 1,
       \<lparr>remote = [],
        calls = [GetCheckAccounts None, GetCheckAccounts (Some (ustr ''Wise (EUR, BE00)''))],
        printed = [ERROR CannotProceedInDryRun], stdin = []\<rparr>)"
proof -
  from dry_run_fresh_account_exits [of demo_args "ustr ''BE00''" "ustr ''EUR''"
      "demo_client [demo_account] 2" ascii_isdecimal "demo_process []"] demo_fresh
  obtain oc p' where "main (demo_client [demo_account] 2) ascii_isdecimal demo_args
      (demo_process []) = Some (oc, p')" "exit_code oc = 1"
    by (auto simp: demo_args_def)
  then show ?thesis
    by (simp add: main_def Accounts_def load_existing_accounts_def
        get_or_create_account_id_def create_account_def die_def
        call_get_check_accounts_def py_print_def demo_client_def demo_process_def
        demo_args_def demo_account_def generate_account_name_def ustr_def cp_def
        split: if_splits)
qed

end
